theory Spec2Isabelle
  imports Complex_Main "HOL-Library.Multiset"
begin

section \<open>Data model\<close>

text \<open>
  The module \<^verbatim>\<open>qtl/pileup.py\<close> extracts per-position read depth with
  \<^verbatim>\<open>samtools depth\<close>, normalizes it to reads per million, averages it by
  genotype and plots it. Exceptions are values: every function that can raise returns
  \<open>error + 'x\<close>, with \<open>Inl\<close> the exception.
\<close>

datatype error =
    KeyError
  | IndexError
  | ValueError string
  | NameError string
  | UnboundLocalError string
  | OverflowError string
  | OSError string
  | CalledProcessError int
  | ExternalError string

text \<open>
  A pandas DataFrame: the row labels (\<open>index\<close>) and the columns in their order, each
  a label with its cells, one cell per row. Column order and duplicate labels matter, so the
  columns are a list of pairs. Cells are numbers of a type \<open>'a\<close> (binary64 in the program):
  the operations on a frame use only the arithmetic they name (\<open>/\<close>, \<open>*\<close>, \<open>+\<close>), the
  proofs about normalization use no law of it, and nothing is assumed of division, so what
  a zero library size yields is left open. A missing cell (NaN) is not a number of the
  model; a table of depths has none.
\<close>

record ('r, 'c, 'a) dataframe =
  index :: "'r list"
  columns :: "('c \<times> 'a list) list"

text \<open>A pandas Series with a name, as \<^verbatim>\<open>_samtools_depth_wrapper\<close> returns it.\<close>

record ('r, 'a) series =
  s_name :: string
  s_index :: "'r list"
  s_values :: "'a list"

text \<open>
  A frame is well formed when every column has one cell per row; pandas keeps this for
  every DataFrame.
\<close>

definition frame_ok :: "('r, 'c, 'a) dataframe \<Rightarrow> bool" where
  "frame_ok df = list_all (\<lambda>col. length (snd col) = length (index df)) (columns df)"

text \<open>Consuming results in order: the first exception aborts.\<close>

fun collect :: "(error + 'x) list \<Rightarrow> error + 'x list" where
  "collect [] = Inr []"
| "collect (Inl e # rs) = Inl e"
| "collect (Inr x # rs) = (case collect rs of Inl e \<Rightarrow> Inl e | Inr xs \<Rightarrow> Inr (x # xs))"

section \<open>Strings\<close>

text \<open>\<^verbatim>\<open>s.endswith(suffix)\<close>.\<close>

definition endswith :: "string \<Rightarrow> string \<Rightarrow> bool" where
  "endswith s suf = (length suf \<le> length s \<and> drop (length s - length suf) s = suf)"

text \<open>\<^verbatim>\<open>s.split(sep)\<close> for a one-character separator: never empty.\<close>

fun split_on :: "char \<Rightarrow> string \<Rightarrow> string list" where
  "split_on sep [] = [[]]"
| "split_on sep (c # cs) =
     (if c = sep then [] # split_on sep cs
      else (case split_on sep cs of
              [] \<Rightarrow> [[c]]
            | w # ws \<Rightarrow> (c # w) # ws))"

text \<open>\<^verbatim>\<open>str(n)\<close> for an integer, as the f-string of the command formats it.\<close>

fun str_nat :: "nat \<Rightarrow> string" where
  "str_nat n =
     (if n < 10 then [char_of (48 + n)]
      else str_nat (n div 10) @ [char_of (48 + n mod 10)])"

definition str_int :: "int \<Rightarrow> string" where
  "str_int i = (if i < 0 then CHR ''-'' # str_nat (nat (- i)) else str_nat (nat i))"

section \<open>DepthExtractor\<close>

subsection \<open>The working directory\<close>

text \<open>
  The process's working directory is the only state of this part. A computation takes the
  working directory and returns its result with the working directory it leaves behind.
  Directories are named by their absolute paths; \<open>is_dir\<close> says which exist.
\<close>

type_synonym 'x proc = "string \<Rightarrow> (error + 'x) \<times> string"

definition os_chdir :: "(string \<Rightarrow> bool) \<Rightarrow> string \<Rightarrow> unit proc" where
  "os_chdir is_dir path cwd =
     (if is_dir path then (Inr (), path) else (Inl (OSError path), cwd))"

text \<open>
  \<^verbatim>\<open>with cd(cd_path): body\<close>, lines 19 to 24. The generator saves the working
  directory, changes it and yields. An exception of the body is thrown into the generator at
  the \<^verbatim>\<open>yield\<close>; the generator has no \<^verbatim>\<open>try\<close> around it, so line 24 does not
  run and the exception leaves the \<^verbatim>\<open>with\<close> statement.
\<close>

definition cd :: "(string \<Rightarrow> bool) \<Rightarrow> string \<Rightarrow> 'x proc \<Rightarrow> 'x proc" where
  "cd is_dir cd_path body cwd =
     (let saved_path = cwd in
      case os_chdir is_dir cd_path cwd of
        (Inl e, cwd1) \<Rightarrow> (Inl e, cwd1)
      | (Inr _, cwd1) \<Rightarrow>
          (case body cwd1 of
             (Inl e, cwd2) \<Rightarrow> (Inl e, cwd2)
           | (Inr c, cwd2) \<Rightarrow>
               (case os_chdir is_dir saved_path cwd2 of
                  (Inl e, cwd3) \<Rightarrow> (Inl e, cwd3)
                | (Inr _, cwd3) \<Rightarrow> (Inr c, cwd3))))"

subsection \<open>One sample\<close>

definition depth_cmd :: "string \<Rightarrow> string \<Rightarrow> int \<Rightarrow> string" where
  "depth_cmd bam_file region_str depth =
     ''export GCS_OAUTH_TOKEN=$GCS_OAUTH_TOKEN; samtools depth -a -a -d '' @ str_int depth
       @ '' -Q 255 -r '' @ region_str @ '' '' @ bam_file"

text \<open>
  \<^verbatim>\<open>_samtools_depth_wrapper\<close>, lines 27 to 45. Two collaborators are parameters:
  \<open>check_output cwd cmd\<close> stands for
  \<^verbatim>\<open>subprocess.check_output(cmd, shell=True).decode().strip().split('\n')\<close> run in
  the working directory \<open>cwd\<close> (the lines of the tool's output, or the exception of a
  nonzero exit status), and \<open>to_series sample_id c\<close> for lines 43 to 45, which build the
  index \<^verbatim>\<open>chr_pos\<close> and the 32-bit depths from the lines. The external process
  does not change the working directory of the caller.
\<close>

definition samtools_depth_wrapper ::
  "(string \<Rightarrow> bool) \<Rightarrow> (string \<Rightarrow> string \<Rightarrow> error + string list) \<Rightarrow>
   (string \<Rightarrow> string list \<Rightarrow> error + 'r list \<times> 'a list) \<Rightarrow>
   string \<times> string \<times> string \<times> string option \<times> int \<Rightarrow> ('r, 'a) series proc" where
  "samtools_depth_wrapper is_dir check_output to_series args cwd =
     (case args of (bam_file, region_str, sample_id, bam_index_dir, depth) \<Rightarrow>
        let cmd = depth_cmd bam_file region_str depth;
            call = (\<lambda>wd. (check_output wd cmd, wd))
        in (case (case bam_index_dir of
                    Some d \<Rightarrow> cd is_dir d call cwd
                  | None \<Rightarrow> call cwd) of
              (Inl e, cwd') \<Rightarrow> (Inl e, cwd')
            | (Inr c, cwd') \<Rightarrow>
                (case to_series sample_id c of
                   Inl e \<Rightarrow> (Inl e, cwd')
                 | Inr (idx, vals) \<Rightarrow>
                     (Inr \<lparr>s_name = sample_id, s_index = idx, s_values = vals\<rparr>, cwd'))))"

subsection \<open>The pool\<close>

text \<open>
  \<^verbatim>\<open>mp.Pool(processes=num_threads).imap(f, tasks)\<close>. The pool hands the tasks to
  its workers in submission order, each worker taking the next task when it is free; the
  tasks complete in some order \<open>completion\<close>, a list of task numbers that depends on
  the pool size and on timing. With \<open>num_threads\<close> workers, the \<open>k\<close>-th task to complete
  is one of the first \<open>k + num_threads\<close> submitted: the others have not started. The
  pool keeps each result under its task number, and the iterator hands the results out by
  increasing task number.
\<close>

definition pool_schedule :: "nat \<Rightarrow> nat \<Rightarrow> nat list \<Rightarrow> bool" where
  "pool_schedule num_threads n completion =
     (mset completion = mset [0..<n] \<and>
      list_all (\<lambda>k. completion ! k < k + num_threads) [0..<n])"

definition pool_imap :: "nat list \<Rightarrow> ('t \<Rightarrow> 'x) \<Rightarrow> 't list \<Rightarrow> 'x list" where
  "pool_imap completion f tasks =
     map snd (sort_key fst (map (\<lambda>k. (k, f (tasks ! k))) completion))"

subsection \<open>Merging\<close>

text \<open>
  \<^verbatim>\<open>pd.concat(series, axis=1)\<close>: an empty list raises; the columns are the series
  in list order, named by their names. When all series have the same index, it is the
  frame's index and the cells are the series' values. Otherwise pandas aligns the series on
  the union of their indexes; that union (or the exception of an index that cannot be
  aligned) and the re-indexed cells are the parameters \<open>union_index\<close> and \<open>reindex\<close>.
\<close>

definition concat_axis1 ::
  "('r list list \<Rightarrow> error + 'r list) \<Rightarrow> ('r list \<Rightarrow> 'r list \<Rightarrow> 'a list \<Rightarrow> 'a list) \<Rightarrow>
   ('r, 'a) series list \<Rightarrow> error + ('r, string, 'a) dataframe" where
  "concat_axis1 union_index reindex ss =
     (case ss of
        [] \<Rightarrow> Inl (ValueError ''No objects to concatenate'')
      | s # rest \<Rightarrow>
          if list_all (\<lambda>t. s_index t = s_index s) rest
          then Inr \<lparr>index = s_index s, columns = map (\<lambda>t. (s_name t, s_values t)) ss\<rparr>
          else (case union_index (map s_index ss) of
                  Inl e \<Rightarrow> Inl e
                | Inr u \<Rightarrow>
                    Inr \<lparr>index = u,
                         columns = map (\<lambda>t. (s_name t, reindex u (s_index t) (s_values t))) ss\<rparr>))"

text \<open>
  \<^verbatim>\<open>samtools_depth\<close>, lines 48 to 62. \<open>bam_s\<close> is the sample mapping as
  \<^verbatim>\<open>bam_s.items()\<close> lists it, sample first. A pool of fewer than one process is
  refused by \<^verbatim>\<open>mp.Pool\<close>. Each worker is a copy of the calling process and starts
  in its working directory \<open>cwd\<close>; a worker takes its tasks in submission order, and a
  task that returns leaves the working directory as it found it, so every task up to the
  first one that raises runs in \<open>cwd\<close>. The loop appends the results as the iterator
  hands them out and stops at the first exception. The progress line printed per result and
  the name given to the index (line 61) are not modelled.
\<close>

definition samtools_depth ::
  "(string \<Rightarrow> bool) \<Rightarrow> (string \<Rightarrow> string \<Rightarrow> error + string list) \<Rightarrow>
   (string \<Rightarrow> string list \<Rightarrow> error + 'r list \<times> 'a list) \<Rightarrow>
   ('r list list \<Rightarrow> error + 'r list) \<Rightarrow> ('r list \<Rightarrow> 'r list \<Rightarrow> 'a list \<Rightarrow> 'a list) \<Rightarrow>
   string \<Rightarrow> nat list \<Rightarrow>
   string \<Rightarrow> (string \<times> string) list \<Rightarrow> string option \<Rightarrow> int \<Rightarrow> int \<Rightarrow>
   error + ('r, string, 'a) dataframe" where
  "samtools_depth is_dir check_output to_series union_index reindex cwd completion
       region_str bam_s bam_index_dir d num_threads =
     (if num_threads < 1 then Inl (ValueError ''Number of processes must be at least 1'')
      else
        let tasks = map (\<lambda>(j, i). (i, region_str, j, bam_index_dir, d)) bam_s;
            results = pool_imap completion
              (\<lambda>args. fst (samtools_depth_wrapper is_dir check_output to_series args cwd)) tasks
        in (case collect results of
              Inl e \<Rightarrow> Inl e
            | Inr pileups_df \<Rightarrow> concat_axis1 union_index reindex pileups_df))"

section \<open>Normalizer\<close>

text \<open>
  \<^verbatim>\<open>libsize_s[pileups_df.columns]\<close>: the library sizes of the columns, in column
  order; a column label the series does not have raises KeyError. The library sizes are a
  mapping from sample to size.
\<close>

definition getitem_labels :: "('c \<rightharpoonup> 'a) \<Rightarrow> 'c list \<Rightarrow> error + 'a list" where
  "getitem_labels s ls =
     (if list_all (\<lambda>l. s l \<noteq> None) ls then Inr (map (\<lambda>l. the (s l)) ls) else Inl KeyError)"

text \<open>
  \<^verbatim>\<open>df / sizes\<close> for sizes indexed by exactly the columns of \<open>df\<close>: column by
  column. \<^verbatim>\<open>df * k\<close>: cell by cell. \<^verbatim>\<open>df.rename(columns=f)\<close>.
\<close>

definition div_columns ::
  "('r, 'c, 'a::inverse) dataframe \<Rightarrow> 'a list \<Rightarrow> ('r, 'c, 'a) dataframe" where
  "div_columns df sizes =
     df\<lparr>columns := map (\<lambda>(col, l). (fst col, map (\<lambda>x. x / l) (snd col))) (zip (columns df) sizes)\<rparr>"

definition mul_scalar ::
  "('r, 'c, 'a::times) dataframe \<Rightarrow> 'a \<Rightarrow> ('r, 'c, 'a) dataframe" where
  "mul_scalar df k = df\<lparr>columns := map (\<lambda>col. (fst col, map (\<lambda>x. x * k) (snd col))) (columns df)\<rparr>"

definition rename_columns ::
  "('c \<Rightarrow> 'c) \<Rightarrow> ('r, 'c, 'a) dataframe \<Rightarrow> ('r, 'c, 'a) dataframe" where
  "rename_columns f df = df\<lparr>columns := map (\<lambda>col. (f (fst col), snd col)) (columns df)\<rparr>"

text \<open>
  \<^verbatim>\<open>norm_pileups\<close>, lines 65 to 78. The residualizer of \<^verbatim>\<open>qtl.stats\<close> is
  the parameter \<open>residualize\<close>: \<open>residualize covariates_df df\<close> stands for
  \<^verbatim>\<open>stats.Residualizer(covariates_df).transform(df)\<close>.
\<close>

definition norm_pileups ::
  "('v \<Rightarrow> ('r, 'c, 'a) dataframe \<Rightarrow> error + ('r, 'c, 'a) dataframe) \<Rightarrow>
   ('r, 'c, 'a::{inverse,semiring_1}) dataframe \<Rightarrow> ('c \<rightharpoonup> 'a) \<Rightarrow> 'v option \<Rightarrow> ('c \<Rightarrow> 'c) \<Rightarrow>
   error + ('r, 'c, 'a) dataframe" where
  "norm_pileups residualize pileups_df libsize_s covariates_df id_map =
     (case getitem_labels libsize_s (map fst (columns pileups_df)) of
        Inl e \<Rightarrow> Inl e
      | Inr sizes \<Rightarrow>
          let pileups_rpm_df = mul_scalar (div_columns pileups_df sizes) 1000000;
              pileups_rpm_df = rename_columns id_map pileups_rpm_df
          in (case covariates_df of
                None \<Rightarrow> Inr pileups_rpm_df
              | Some cov \<Rightarrow> residualize cov pileups_rpm_df))"

section \<open>GenotypeGrouper\<close>

text \<open>
  A dosage series maps samples to an integer dosage or to a missing value (\<open>None\<close>), in
  the order of its index. The \<^verbatim>\<open>genotypes\<close> argument is any Python object: a
  string, a pandas Series of dosages, or something else.
\<close>

type_synonym 'c dosages = "('c \<times> int option) list"

datatype 'c genotypes = GStr string | GSeries "'c dosages" | GOther

text \<open>
  The steps of \<^verbatim>\<open>group_pileups\<close> that do work on data, recorded in the order in
  which a call runs them: the call of \<^verbatim>\<open>norm_pileups\<close> (line 87), the call of
  \<^verbatim>\<open>gt.get_genotype\<close> with its arguments (line 91), and the averaging (lines 98 to
  99).
\<close>

datatype step = Normalize | GetGenotype string string | Average

text \<open>\<^verbatim>\<open>np.unique(g[g.notnull()]).astype(int)\<close>: the dosages present, ascending.\<close>

definition unique_dosages :: "'c dosages \<Rightarrow> int list" where
  "unique_dosages g = sort (remdups (List.map_filter snd g))"

text \<open>\<^verbatim>\<open>g[g == i].index\<close>: the samples of dosage \<open>i\<close>, in the order of \<open>g\<close>.\<close>

definition members :: "'c dosages \<Rightarrow> int \<Rightarrow> 'c list" where
  "members g i = map fst (filter (\<lambda>sd. snd sd = Some i) g)"

text \<open>
  \<^verbatim>\<open>df[labels]\<close>: for each label in turn the columns of that label; a label with
  no column raises KeyError.
\<close>

definition select_columns ::
  "('r, 'c, 'a) dataframe \<Rightarrow> 'c list \<Rightarrow> error + ('r, 'c, 'a) dataframe" where
  "select_columns df ls =
     (if list_all (\<lambda>l. l \<in> fst ` set (columns df)) ls
      then Inr (df\<lparr>columns := concat (map (\<lambda>l. filter (\<lambda>col. fst col = l) (columns df)) ls)\<rparr>)
      else Inl KeyError)"

text \<open>
  \<^verbatim>\<open>df.mean(axis=1)\<close>: per row, the sum of the row's cells over their number (all
  cells are numbers, so none is skipped).
\<close>

definition mean_axis1 :: "('r, 'c, 'a::{inverse,semiring_1}) dataframe \<Rightarrow> 'a list" where
  "mean_axis1 df =
     map (\<lambda>p. sum_list (map (\<lambda>col. snd col ! p) (columns df)) / of_nat (length (columns df)))
       [0..<length (index df)]"

text \<open>
  \<^verbatim>\<open>series[labels]\<close> on a dosage series (line 91): the entries of each label in
  turn; a label the series does not have raises KeyError.
\<close>

definition getitem_dosages :: "'c dosages \<Rightarrow> 'c list \<Rightarrow> error + 'c dosages" where
  "getitem_dosages g ls =
     (if list_all (\<lambda>l. l \<in> fst ` set g) ls
      then Inr (concat (map (\<lambda>l. filter (\<lambda>sd. fst sd = l) g) ls))
      else Inl KeyError)"

text \<open>
  Lines 98 to 99: one mean series per dosage, in ascending order of dosage, joined by
  \<^verbatim>\<open>pd.concat(..., axis=1)\<close>, which refuses an empty list. All series have the
  index of the normalized table.
\<close>

definition average_by_dosage ::
  "('r, 'c, 'a::{inverse,semiring_1}) dataframe \<Rightarrow> 'c dosages \<Rightarrow> error + ('r, int, 'a) dataframe" where
  "average_by_dosage pileups_rpm_df g =
     (let cols = unique_dosages g in
      case collect (map (\<lambda>i. case select_columns pileups_rpm_df (members g i) of
                               Inl e \<Rightarrow> Inl e
                             | Inr sub \<Rightarrow> Inr (i, mean_axis1 sub)) cols) of
        Inl e \<Rightarrow> Inl e
      | Inr [] \<Rightarrow> Inl (ValueError ''No objects to concatenate'')
      | Inr means \<Rightarrow> Inr \<lparr>index = index pileups_rpm_df, columns = means\<rparr>)"

text \<open>
  \<^verbatim>\<open>group_pileups\<close>, lines 81 to 100, with the steps it ran. The genotype reader of
  \<^verbatim>\<open>qtl.genotype\<close> is the parameter \<open>get_genotype\<close>.
\<close>

definition group_pileups ::
  "('v \<Rightarrow> ('r, 'c, 'a) dataframe \<Rightarrow> error + ('r, 'c, 'a) dataframe) \<Rightarrow>
   (string \<Rightarrow> string \<Rightarrow> error + 'c dosages) \<Rightarrow>
   ('r, 'c, 'a::{inverse,semiring_1}) dataframe \<Rightarrow> ('c \<rightharpoonup> 'a) \<Rightarrow> string \<Rightarrow> 'c genotypes \<Rightarrow>
   'v option \<Rightarrow> ('c \<Rightarrow> 'c) \<Rightarrow> step list \<times> (error + ('r, int, 'a) dataframe)" where
  "group_pileups residualize get_genotype pileups_df libsize_s variant_id genotypes
       covariates_df id_map =
     (case norm_pileups residualize pileups_df libsize_s covariates_df id_map of
        Inl e \<Rightarrow> ([Normalize], Inl e)
      | Inr pileups_rpm_df \<Rightarrow>
          (case genotypes of
             GStr path \<Rightarrow>
               if endswith path ''.vcf.gz'' then
                 (case get_genotype variant_id path of
                    Inl e \<Rightarrow> ([Normalize, GetGenotype variant_id path], Inl e)
                  | Inr g0 \<Rightarrow>
                      (case getitem_dosages g0 (map fst (columns pileups_rpm_df)) of
                         Inl e \<Rightarrow> ([Normalize, GetGenotype variant_id path], Inl e)
                       | Inr g \<Rightarrow>
                           ([Normalize, GetGenotype variant_id path, Average],
                            average_by_dosage pileups_rpm_df g)))
               else ([Normalize], Inl (ValueError ''Unsupported format for genotypes.''))
           | GSeries g \<Rightarrow> ([Normalize, Average], average_by_dosage pileups_rpm_df g)
           | GOther \<Rightarrow> ([Normalize], Inl (ValueError ''Unsupported format for genotypes.''))))"

section \<open>PlotComposer\<close>

text \<open>
  \<^verbatim>\<open>plot\<close>, lines 103 to 260, for a call with \<^verbatim>\<open>variant_id=None\<close>: what
  it decides about the pileup panels (colour cycle, order of the traces, shading). The
  figure geometry, the legend and axis styling, the gene track and the mappability track are
  calls into matplotlib and the gene model with no part in these decisions; they are taken
  to return and are not modelled. The tables are a list; a single table is wrapped into a
  list of one (lines 112 to 113).

  A column label of a table passed to \<^verbatim>\<open>plot\<close> is a Python object: an integer
  (a dosage, from \<^verbatim>\<open>group_pileups\<close>) or a string (a sample).
\<close>

datatype label = IntL int | StrL string

datatype order = OrderList "label list" | OrderStr string

datatype shade = ShadeList "int list" | ShadeStr string

text \<open>
  \<^verbatim>\<open>ax.set_prop_cycle(custom_cycler)\<close>: the three colours blue, orange, green, or
  (for \<^verbatim>\<open>None\<close>) the default cycle.
\<close>

datatype cycle = Custom3 | DefaultCycle

datatype style = Fill | Outline

record 'x rectangle =
  rect_x :: 'x
  rect_y :: 'x
  rect_width :: 'x
  rect_height :: 'x
  facecolor :: rat

record 'x panel =
  prop_cycle :: cycle
  traces :: "(label \<times> style) list"
  patches :: "'x rectangle list"

text \<open>\<^verbatim>\<open>pileup_dfs[0].sum()\<close>: the series of column sums, indexed by the labels.\<close>

definition trace_sums :: "('r, label, 'a::monoid_add) dataframe \<Rightarrow> (label \<times> 'a) list" where
  "trace_sums df = map (\<lambda>col. (fst col, sum_list (snd col))) (columns df)"

text \<open>
  \<^verbatim>\<open>np.argsort\<close>: the positions, by ascending value (positions of equal values
  in their order).
\<close>

definition argsort :: "'a::linorder list \<Rightarrow> nat list" where
  "argsort xs = sort_key (\<lambda>i. xs ! i) [0..<length xs]"

text \<open>
  \<^verbatim>\<open>s[l]\<close> as line 163 compares it: the sum of label \<open>l\<close>; with a repeated label
  the comparison is between series and its truth value is refused.
\<close>

definition sum_at :: "(label \<times> 'a) list \<Rightarrow> label \<Rightarrow> error + 'a" where
  "sum_at s l =
     (case filter (\<lambda>p. fst p = l) s of
        [] \<Rightarrow> Inl KeyError
      | [p] \<Rightarrow> Inr (snd p)
      | _ \<Rightarrow> Inl (ValueError ''The truth value of a Series is ambiguous.''))"

text \<open>
  Lines 158 to 168: \<^verbatim>\<open>sorder\<close>, the sequence the drawing loop iterates over. For
  \<^verbatim>\<open>'sorted'\<close> it is \<^verbatim>\<open>np.argsort(s)[::-1]\<close>, a series whose values are
  positions; iterating over it yields these integers. Any other string leaves
  \<^verbatim>\<open>sorder\<close> unbound, and its first use (line 174) raises.
\<close>

definition trace_order :: "order \<Rightarrow> (label \<times> 'a::linorder) list \<Rightarrow> error + label list" where
  "trace_order order s =
     (case order of
        OrderList l \<Rightarrow> Inr l
      | OrderStr m \<Rightarrow>
          if m = ''additive'' then
            (let sorder = map fst s in
             if sorder = [] then Inl IndexError
             else (case sum_at s (hd sorder) of
                     Inl e \<Rightarrow> Inl e
                   | Inr a \<Rightarrow>
                       (case sum_at s (last sorder) of
                          Inl e \<Rightarrow> Inl e
                        | Inr b \<Rightarrow> Inr (if a < b then rev sorder else sorder))))
          else if m = ''sorted'' then Inr (map (\<lambda>i. IntL (int i)) (rev (argsort (map snd s))))
          else if m = ''none'' then Inr (map fst s)
          else Inl (UnboundLocalError ''sorder''))"

text \<open>
  Lines 174 to 179, for one panel: each element \<open>i\<close> of \<^verbatim>\<open>sorder\<close> that is a
  column label of the panel's table (\<^verbatim>\<open>i in pileup_dfs[k]\<close>) is drawn, labelled
  \<open>i\<close>, in this order. \<^verbatim>\<open>pileup_dfs[k][i]\<close> holds every column of that label: for
  a label that the table repeats it is two-dimensional, which \<^verbatim>\<open>fill_between\<close>
  refuses, while \<^verbatim>\<open>ax.plot\<close> draws one line per column.
\<close>

definition draw_one ::
  "bool \<Rightarrow> ('r, label, 'a) dataframe \<Rightarrow> label \<Rightarrow> error + (label \<times> style) list" where
  "draw_one outline df i =
     (let n = length (filter (\<lambda>col. fst col = i) (columns df)) in
      if outline then Inr (replicate n (i, Outline))
      else if n = 1 then Inr [(i, Fill)]
      else Inl (ValueError ''y1 is not 1-dimensional''))"

definition draw_traces ::
  "bool \<Rightarrow> label list \<Rightarrow> ('r, label, 'a) dataframe \<Rightarrow> error + (label \<times> style) list" where
  "draw_traces outline sorder df =
     (case collect (map (draw_one outline df)
                      (filter (\<lambda>i. i \<in> fst ` set (columns df)) sorder)) of
        Inl e \<Rightarrow> Inl e
      | Inr drawn \<Rightarrow> Inr (concat drawn))"

text \<open>
  The integers of a numpy array are signed 64-bit integers; arithmetic on them wraps
  around.
\<close>

definition in_int64 :: "int \<Rightarrow> bool" where
  "in_int64 v = (- (2 ^ 63) \<le> v \<and> v < 2 ^ 63)"

definition wrap_int64 :: "int \<Rightarrow> int" where
  "wrap_int64 v = (v + 2 ^ 63) mod 2 ^ 64 - 2 ^ 63"

text \<open>
  Lines 223 to 225. A region string is cut after its last colon and at the hyphens, and
  \<^verbatim>\<open>astype(int)\<close> converts the pieces in turn: \<open>int_of\<close> is numpy's conversion of one
  piece to a 64-bit integer (the integer, or the exception, a ValueError for a piece that is
  not an integer literal). A list of integers that all fit 64 signed bits is taken as it is.
  A list with an entry below \<open>-2\<^sup>6\<^sup>3\<close> or from \<open>2\<^sup>6\<^sup>4\<close> on becomes an array of Python objects,
  and \<^verbatim>\<open>astype(int)\<close> raises OverflowError. For the remaining lists (an entry from
  \<open>2\<^sup>6\<^sup>3\<close> on, none from \<open>2\<^sup>6\<^sup>4\<close> on) numpy goes through unsigned or floating-point
  numbers; what it yields is the parameter \<open>astype_wide\<close>.
\<close>

definition to_int_array ::
  "(string \<Rightarrow> error + int) \<Rightarrow> (int list \<Rightarrow> error + int list) \<Rightarrow> shade \<Rightarrow> error + int list" where
  "to_int_array int_of astype_wide sr =
     (case sr of
        ShadeList xs \<Rightarrow>
          if list_all in_int64 xs then Inr xs
          else if list_all (\<lambda>v. - (2 ^ 63) \<le> v \<and> v < 2 ^ 64) xs then astype_wide xs
          else Inl (OverflowError ''Python int too large to convert to C long'')
      | ShadeStr s \<Rightarrow>
          collect (map int_of (split_on CHR ''-'' (last (split_on CHR '':'' s)))))"

text \<open>
  Line 226, \<^verbatim>\<open>shade_range -= gene.start_pos\<close>: the subtraction is done in 64 bits; a
  start position that does not fit them is refused (with an exception whose class depends on
  the numpy version; OverflowError here).
\<close>

definition subtract_start :: "int list \<Rightarrow> int \<Rightarrow> error + int list" where
  "subtract_start arr start_pos =
     (if in_int64 start_pos then Inr (map (\<lambda>v. wrap_int64 (v - start_pos)) arr)
      else Inl (OverflowError ''Python integer out of bounds for int64''))"

text \<open>
  A name that \<^verbatim>\<open>plot\<close> reads and never assigns is looked up in the module's
  globals and then among the built-in names. The module binds the names of its imports
  (lines 1 to 16) and of its six functions. The built-in functions are listed; every other
  built-in name (the exceptions, the constants, the module attributes) starts with a capital
  letter or an underscore and is counted as bound.
\<close>

definition module_globals :: "string list" where
  "module_globals =
     [''pd'', ''np'', ''glob'', ''os'', ''subprocess'', ''contextlib'', ''mp'', ''plt'',
      ''patches'', ''hsv_to_rgb'', ''sns'', ''cycler'', ''stats'', ''annotation'', ''qtl_plot'',
      ''gt'', ''cd'', ''_samtools_depth_wrapper'', ''samtools_depth'', ''norm_pileups'',
      ''group_pileups'', ''plot'']"

definition builtin_functions :: "string list" where
  "builtin_functions =
     [''abs'', ''aiter'', ''all'', ''anext'', ''any'', ''ascii'', ''bin'', ''bool'',
      ''breakpoint'', ''bytearray'', ''bytes'', ''callable'', ''chr'', ''classmethod'',
      ''compile'', ''complex'', ''copyright'', ''credits'', ''delattr'', ''dict'', ''dir'',
      ''divmod'', ''enumerate'', ''eval'', ''exec'', ''exit'', ''filter'', ''float'',
      ''format'', ''frozenset'', ''getattr'', ''globals'', ''hasattr'', ''hash'', ''help'',
      ''hex'', ''id'', ''input'', ''int'', ''isinstance'', ''issubclass'', ''iter'', ''len'',
      ''license'', ''list'', ''locals'', ''map'', ''max'', ''memoryview'', ''min'', ''next'',
      ''object'', ''oct'', ''open'', ''ord'', ''pow'', ''print'', ''property'', ''quit'',
      ''range'', ''repr'', ''reversed'', ''round'', ''set'', ''setattr'', ''slice'',
      ''sorted'', ''staticmethod'', ''str'', ''sum'', ''super'', ''tuple'', ''type'', ''vars'',
      ''zip'']"

definition capital_or_underscore :: "string \<Rightarrow> bool" where
  "capital_or_underscore n =
     (case n of
        [] \<Rightarrow> False
      | c # _ \<Rightarrow> c = CHR ''_'' \<or> (of_char c \<ge> (65::nat) \<and> of_char c \<le> (90::nat)))"

definition load_global :: "string \<Rightarrow> error + unit" where
  "load_global n =
     (if n \<in> set module_globals \<or> n \<in> set builtin_functions \<or> capital_or_underscore n
      then Inr ()
      else Inl (NameError n))"

text \<open>
  Lines 223 to 231. The parameter \<open>callee\<close> stands for calling whatever object the name
  \<^verbatim>\<open>ifct\<close> is bound to, once the name has been found; \<open>ylim_top\<close> is
  \<^verbatim>\<open>ax.get_ylim()[1]\<close>.
\<close>

definition shade_patches ::
  "(string \<Rightarrow> error + int) \<Rightarrow> (int list \<Rightarrow> error + int list) \<Rightarrow>
   (int list \<Rightarrow> error + 'x list) \<Rightarrow> int \<Rightarrow> 'x \<Rightarrow> shade \<Rightarrow>
   error + ('x::{minus,zero}) rectangle list" where
  "shade_patches int_of astype_wide callee start_pos ylim_top sr =
     (case to_int_array int_of astype_wide sr of
        Inl e \<Rightarrow> Inl e
      | Inr arr \<Rightarrow>
          (case subtract_start arr start_pos of
             Inl e \<Rightarrow> Inl e
           | Inr rel \<Rightarrow>
               (case load_global ''ifct'' of
                  Inl e \<Rightarrow> Inl e
                | Inr _ \<Rightarrow>
                    (case callee rel of
                       Inl e \<Rightarrow> Inl e
                     | Inr xs \<Rightarrow>
                         Inr (map (\<lambda>k. \<lparr>rect_x = xs ! k, rect_y = 0,
                                         rect_width = xs ! (k + 1) - xs ! k,
                                         rect_height = ylim_top,
                                         facecolor = (if even k then 4 / 5 else 9 / 10)\<rparr>)
                                [0..<length xs - 1])))))"

text \<open>
  The call. Its result in the model is the list of the pileup panels, \<^verbatim>\<open>axv\<close> in the
  order of \<^verbatim>\<open>pileup_dfs\<close>, as they are before the gene axis (line 244) and the
  mappability axis (line 255) are appended to the list that is returned. The colour cycle
  is chosen once, from the first table (line 140), and set on every panel (lines 151 and
  155). The traces are drawn panel by panel; the first exception ends the call. The
  rectangles of the shading go to the last panel (\<^verbatim>\<open>axv[-1]\<close>).
\<close>

definition plot ::
  "(string \<Rightarrow> error + int) \<Rightarrow> (int list \<Rightarrow> error + int list) \<Rightarrow>
   (int list \<Rightarrow> error + 'x list) \<Rightarrow>
   ('r, label, 'a::{linorder,monoid_add}) dataframe list \<Rightarrow> order \<Rightarrow> bool \<Rightarrow> shade option \<Rightarrow>
   int \<Rightarrow> 'x \<Rightarrow> error + ('x::{minus,zero}) panel list" where
  "plot int_of astype_wide callee pileup_dfs order outline shade_range start_pos ylim_top =
     (case pileup_dfs of
        [] \<Rightarrow> Inl IndexError
      | df0 # _ \<Rightarrow>
          let custom_cycler = (if length (columns df0) \<le> 3 then Custom3 else DefaultCycle);
              s = trace_sums df0
          in (case trace_order order s of
                Inl e \<Rightarrow> Inl e
              | Inr sorder \<Rightarrow>
                  (case collect (map (draw_traces outline sorder) pileup_dfs) of
                     Inl e \<Rightarrow> Inl e
                   | Inr drawn \<Rightarrow>
                       (let axv = map (\<lambda>tr. \<lparr>prop_cycle = custom_cycler, traces = tr,
                                               patches = []\<rparr>) drawn
                        in (case shade_range of
                              None \<Rightarrow> Inr axv
                            | Some sr \<Rightarrow>
                                (case shade_patches int_of astype_wide callee start_pos
                                        ylim_top sr of
                                   Inl e \<Rightarrow> Inl e
                                 | Inr ps \<Rightarrow>
                                     Inr (butlast axv @ [(last axv)\<lparr>patches := ps\<rparr>])))))))"

section \<open>The normalizer is a scalar transform\<close>

text \<open>With every column covered and no covariates, the normalized table in closed form.\<close>

lemma getitem_labels_ok:
  "set ls \<subseteq> dom s \<Longrightarrow> getitem_labels s ls = Inr (map (\<lambda>l. the (s l)) ls)"
  by (auto simp: getitem_labels_def list_all_iff)

lemma norm_pileups_columns:
  assumes "fst ` set (columns pileups_df) \<subseteq> dom libsize_s"
  shows "norm_pileups residualize pileups_df libsize_s None id_map =
     Inr (pileups_df\<lparr>columns := map (\<lambda>col. (id_map (fst col), map (\<lambda>x. x / the (libsize_s (fst col)) * 1000000) (snd col))) (columns pileups_df)\<rparr>)"
proof -
  have "getitem_labels libsize_s (map fst (columns pileups_df)) =
      Inr (map (\<lambda>l. the (libsize_s l)) (map fst (columns pileups_df)))"
    using assms by (intro getitem_labels_ok) simp
  then show ?thesis
    by (simp add: norm_pileups_def rename_columns_def mul_scalar_def div_columns_def
        zip_map2 comp_def zip_same_conv_map)
qed

text \<open>
  C1. For every pileup table and every library-size map that covers its columns,
  \<^verbatim>\<open>norm_pileups\<close> with the identity \<^verbatim>\<open>id_map\<close> and no covariates returns
  a table with the same index and the same column labels in which the cell of every column
  and position is the raw cell divided by the column's library size and multiplied by
  \<open>10\<^sup>6\<close>. This holds whatever the cell arithmetic is. In particular, the raw depths A = [10, 20],
  B = [30, 40] with library sizes A = \<open>10\<^sup>6\<close>, B = \<open>2 \<sqdot> 10\<^sup>6\<close> normalize to A = [10, 20],
  B = [15, 20] (evaluated in the rationals).
\<close>

theorem norm_pileups_reads_per_million:
  "(\<forall>(pileups_df :: ('r, 'c, 'a::{inverse,semiring_1}) dataframe) libsize_s.
      fst ` set (columns pileups_df) \<subseteq> dom libsize_s \<longrightarrow>
      (\<exists>rpm. norm_pileups residualize pileups_df libsize_s None id = Inr rpm \<and>
         index rpm = index pileups_df \<and>
         map fst (columns rpm) = map fst (columns pileups_df) \<and>
         (\<forall>j < length (columns pileups_df).
            length (snd (columns rpm ! j)) = length (snd (columns pileups_df ! j)) \<and>
            (\<forall>p < length (snd (columns pileups_df ! j)).
               snd (columns rpm ! j) ! p =
               snd (columns pileups_df ! j) ! p / the (libsize_s (fst (columns pileups_df ! j)))
                 * 1000000)))) \<and>
   norm_pileups residualize'
     \<lparr>index = [''chr1_1'', ''chr1_2''], columns = [(''A'', [10, 20]), (''B'', [30, 40])]\<rparr>
     (map_of [(''A'', 1000000), (''B'', 2000000)]) None id =
   Inr \<lparr>index = [''chr1_1'', ''chr1_2''], columns = [(''A'', [10, 20 :: rat]), (''B'', [15, 20])]\<rparr>"
proof (intro conjI allI impI)
  fix pileups_df :: "('r, 'c, 'a) dataframe" and libsize_s :: "'c \<rightharpoonup> 'a"
  assume cover: "fst ` set (columns pileups_df) \<subseteq> dom libsize_s"
  show "\<exists>rpm. norm_pileups residualize pileups_df libsize_s None id = Inr rpm \<and>
         index rpm = index pileups_df \<and>
         map fst (columns rpm) = map fst (columns pileups_df) \<and>
         (\<forall>j < length (columns pileups_df).
            length (snd (columns rpm ! j)) = length (snd (columns pileups_df ! j)) \<and>
            (\<forall>p < length (snd (columns pileups_df ! j)).
               snd (columns rpm ! j) ! p =
               snd (columns pileups_df ! j) ! p / the (libsize_s (fst (columns pileups_df ! j)))
                 * 1000000))"
    by (simp add: norm_pileups_columns [OF cover] comp_def)
next
  have "fst ` set (columns \<lparr>index = [''chr1_1'', ''chr1_2''], columns = [(''A'', [10, 20]), (''B'', [30, 40::rat])]\<rparr>)
     \<subseteq> dom (map_of [(''A'', 1000000), (''B'', 2000000::rat)])"
    by simp
  from norm_pileups_columns [OF this, where residualize = residualize' and id_map = id]
  show "norm_pileups residualize'
     \<lparr>index = [''chr1_1'', ''chr1_2''], columns = [(''A'', [10, 20]), (''B'', [30, 40])]\<rparr>
     (map_of [(''A'', 1000000), (''B'', 2000000)]) None id =
   Inr \<lparr>index = [''chr1_1'', ''chr1_2''], columns = [(''A'', [10, 20 :: rat]), (''B'', [15, 20])]\<rparr>"
    by simp
qed

text \<open>The theorem at a table of two samples and three positions.\<close>

theorem norm_pileups_reads_per_million_witness:
  "\<exists>rpm. norm_pileups (\<lambda>(cov :: unit) df. Inr df)
       \<lparr>index = [1 :: nat, 2, 3], columns = [(''S1'', [0, 7, 3 :: rat]), (''S2'', [5, 1, 2])]\<rparr>
       (map_of [(''S1'', 4000000), (''S2'', 500000)]) None id = Inr rpm \<and>
     snd (columns rpm ! 0) ! 1 = 7 / 4 \<and> snd (columns rpm ! 1) ! 0 = 10"
proof -
  let ?df = "\<lparr>index = [1 :: nat, 2, 3], columns = [(''S1'', [0, 7, 3 :: rat]), (''S2'', [5, 1, 2])]\<rparr>"
  let ?lib = "map_of [(''S1'', 4000000 :: rat), (''S2'', 500000)]"
  have cover: "fst ` set (columns ?df) \<subseteq> dom ?lib" by simp
  from norm_pileups_reads_per_million [where residualize = "\<lambda>(cov :: unit) df. Inr df",
      THEN conjunct1, rule_format, OF cover]
  obtain rpm where r: "norm_pileups (\<lambda>(cov :: unit) df. Inr df) ?df ?lib None id = Inr rpm"
    and c: "\<forall>j < length (columns ?df).
            length (snd (columns rpm ! j)) = length (snd (columns ?df ! j)) \<and>
            (\<forall>p < length (snd (columns ?df ! j)).
               snd (columns rpm ! j) ! p =
               snd (columns ?df ! j) ! p / the (?lib (fst (columns ?df ! j))) * 1000000)"
    by blast
  from c [rule_format, of 0, THEN conjunct2, rule_format, of 1]
  have a: "snd (columns rpm ! 0) ! 1 = 7 / 4" by simp
  from c [rule_format, of 1, THEN conjunct2, rule_format, of 0]
  have b: "snd (columns rpm ! 1) ! 0 = 10" by simp
  from r a b show ?thesis by blast
qed

section \<open>Normalizing twice\<close>

text \<open>
  In exact arithmetic, rescaling a normalized cell once more leaves it unchanged only when
  the library size is \<open>10\<^sup>6\<close> or the cell is zero.
\<close>

lemma rescale_fixed_iff:
  fixes x l :: "'a::field_char_0"
  assumes "l \<noteq> 0"
  shows "x / l * 1000000 / l * 1000000 = x / l * 1000000 \<longleftrightarrow> l = 1000000 \<or> x = 0"
proof -
  define y where "y = x / l * 1000000"
  have "y / l * 1000000 = y \<longleftrightarrow> y = 0 \<or> l = 1000000"
    using assms by (auto simp: field_simps)
  moreover have "y = 0 \<longleftrightarrow> x = 0" using assms by (simp add: y_def)
  ultimately show ?thesis unfolding y_def by blast
qed

text \<open>The second normalization in closed form.\<close>

lemma norm_pileups_twice_columns:
  assumes "fst ` set (columns pileups_df) \<subseteq> dom libsize_s"
  shows "norm_pileups residualize pileups_df libsize_s None id = Inr rpm \<Longrightarrow>
    norm_pileups residualize rpm libsize_s None id =
     Inr (rpm\<lparr>columns := map (\<lambda>col. (fst col, map (\<lambda>x. x / the (libsize_s (fst col)) * 1000000) (snd col))) (columns rpm)\<rparr>)"
proof -
  assume r: "norm_pileups residualize pileups_df libsize_s None id = Inr rpm"
  have "map fst (columns rpm) = map fst (columns pileups_df)"
    using r by (auto simp: norm_pileups_columns [OF assms] comp_def)
  then have "set (map fst (columns rpm)) = set (map fst (columns pileups_df))" by simp
  then have "fst ` set (columns rpm) \<subseteq> dom libsize_s"
    using assms by simp
  then show ?thesis by (simp add: norm_pileups_columns)
qed

lemma norm_pileups_twice_same_iff:
  fixes pileups_df :: "('r, 'c, 'b::field_char_0) dataframe"
  assumes cover: "fst ` set (columns pileups_df) \<subseteq> dom libsize_s"
    and nz: "\<forall>c \<in> fst ` set (columns pileups_df). libsize_s c \<noteq> Some 0"
    and r: "norm_pileups residualize pileups_df libsize_s None id = Inr rpm"
    and r2: "norm_pileups residualize rpm libsize_s None id = Inr rpm2"
  shows "rpm2 = rpm \<longleftrightarrow>
     (\<forall>col \<in> set (columns pileups_df).
        libsize_s (fst col) = Some 1000000 \<or> (\<forall>x \<in> set (snd col). x = 0))"
proof -
  define F where "F = (\<lambda>col :: 'c \<times> 'b list.
     (fst col, map (\<lambda>x. x / the (libsize_s (fst col)) * 1000000) (snd col)))"
  have rpm: "rpm = pileups_df\<lparr>columns := map F (columns pileups_df)\<rparr>"
    using r by (simp add: norm_pileups_columns [OF cover] F_def)
  have rpm2: "rpm2 = rpm\<lparr>columns := map F (columns rpm)\<rparr>"
    using r2 by (simp add: norm_pileups_twice_columns [OF cover r] F_def)
  have "rpm2 = rpm \<longleftrightarrow> map F (map F (columns pileups_df)) = map F (columns pileups_df)"
    unfolding rpm2 unfolding rpm by (cases pileups_df) simp
  also have "\<dots> \<longleftrightarrow> (\<forall>col \<in> set (columns pileups_df). F (F col) = F col)"
    by (simp add: comp_def)
  also have "\<dots> \<longleftrightarrow> (\<forall>col \<in> set (columns pileups_df).
        libsize_s (fst col) = Some 1000000 \<or> (\<forall>x \<in> set (snd col). x = 0))"
  proof (rule ball_cong [OF refl])
    fix col assume "col \<in> set (columns pileups_df)"
    then have "fst col \<in> fst ` set (columns pileups_df)" by simp
    with cover nz obtain l where l: "libsize_s (fst col) = Some l" "l \<noteq> 0"
      by (metis domD subsetD)
    have "F (F col) = F col \<longleftrightarrow>
        (\<forall>x \<in> set (snd col). x / l * 1000000 / l * 1000000 = x / l * 1000000)"
      by (simp add: F_def l comp_def)
    also have "\<dots> \<longleftrightarrow> (\<forall>x \<in> set (snd col). l = 1000000 \<or> x = 0)"
      using rescale_fixed_iff [OF l(2)] by blast
    also have "\<dots> \<longleftrightarrow> libsize_s (fst col) = Some 1000000 \<or> (\<forall>x \<in> set (snd col). x = 0)"
      by (auto simp: l)
    finally show "F (F col) = F col \<longleftrightarrow>
        libsize_s (fst col) = Some 1000000 \<or> (\<forall>x \<in> set (snd col). x = 0)" .
  qed
  finally show ?thesis .
qed

text \<open>
  C7, as amended. For every pileup table and every library-size map that covers its columns,
  normalizing the normalized table again (identity \<^verbatim>\<open>id_map\<close>, no covariates)
  returns a table with the same index and column labels in which every cell has been
  rescaled once more: the cell of the first result divided by the column's library size and
  multiplied by \<open>10\<^sup>6\<close>. In exact arithmetic (a field of characteristic 0) and with nonzero
  library sizes, the second result equals the first if and only if every column has library
  size \<open>10\<^sup>6\<close> or holds zeros only.
\<close>

theorem norm_pileups_twice_rescales:
  "(\<forall>(pileups_df :: ('r, 'c, 'a::{inverse,semiring_1}) dataframe) libsize_s.
      fst ` set (columns pileups_df) \<subseteq> dom libsize_s \<longrightarrow>
      (\<exists>rpm rpm2.
         norm_pileups residualize pileups_df libsize_s None id = Inr rpm \<and>
         norm_pileups residualize rpm libsize_s None id = Inr rpm2 \<and>
         index rpm2 = index rpm \<and>
         map fst (columns rpm2) = map fst (columns rpm) \<and>
         (\<forall>j < length (columns rpm).
            length (snd (columns rpm2 ! j)) = length (snd (columns rpm ! j)) \<and>
            (\<forall>p < length (snd (columns rpm ! j)).
               snd (columns rpm2 ! j) ! p =
               snd (columns rpm ! j) ! p / the (libsize_s (fst (columns rpm ! j))) * 1000000)))) \<and>
   (\<forall>(pileups_df :: ('r, 'c, 'b::field_char_0) dataframe) libsize_s rpm rpm2.
      fst ` set (columns pileups_df) \<subseteq> dom libsize_s \<longrightarrow>
      (\<forall>c \<in> fst ` set (columns pileups_df). libsize_s c \<noteq> Some 0) \<longrightarrow>
      norm_pileups residualize' pileups_df libsize_s None id = Inr rpm \<longrightarrow>
      norm_pileups residualize' rpm libsize_s None id = Inr rpm2 \<longrightarrow>
      (rpm2 = rpm \<longleftrightarrow>
         (\<forall>col \<in> set (columns pileups_df).
            libsize_s (fst col) = Some 1000000 \<or> (\<forall>x \<in> set (snd col). x = 0))))"
proof (intro conjI allI impI)
  fix pileups_df :: "('r, 'c, 'a) dataframe" and libsize_s :: "'c \<rightharpoonup> 'a"
  assume cover: "fst ` set (columns pileups_df) \<subseteq> dom libsize_s"
  define rpm where "rpm = pileups_df\<lparr>columns := map (\<lambda>col. (id (fst col),
      map (\<lambda>x. x / the (libsize_s (fst col)) * 1000000) (snd col))) (columns pileups_df)\<rparr>"
  have r: "norm_pileups residualize pileups_df libsize_s None id = Inr rpm"
    unfolding rpm_def by (rule norm_pileups_columns [OF cover])
  show "\<exists>rpm rpm2.
         norm_pileups residualize pileups_df libsize_s None id = Inr rpm \<and>
         norm_pileups residualize rpm libsize_s None id = Inr rpm2 \<and>
         index rpm2 = index rpm \<and>
         map fst (columns rpm2) = map fst (columns rpm) \<and>
         (\<forall>j < length (columns rpm).
            length (snd (columns rpm2 ! j)) = length (snd (columns rpm ! j)) \<and>
            (\<forall>p < length (snd (columns rpm ! j)).
               snd (columns rpm2 ! j) ! p =
               snd (columns rpm ! j) ! p / the (libsize_s (fst (columns rpm ! j))) * 1000000))"
    using r by (simp add: norm_pileups_twice_columns [OF cover r] comp_def)
next
  fix pileups_df :: "('r, 'c, 'b) dataframe" and libsize_s :: "'c \<rightharpoonup> 'b" and rpm rpm2
  assume "fst ` set (columns pileups_df) \<subseteq> dom libsize_s"
    and "\<forall>c \<in> fst ` set (columns pileups_df). libsize_s c \<noteq> Some 0"
    and "norm_pileups residualize' pileups_df libsize_s None id = Inr rpm"
    and "norm_pileups residualize' rpm libsize_s None id = Inr rpm2"
  then show "rpm2 = rpm \<longleftrightarrow>
         (\<forall>col \<in> set (columns pileups_df).
            libsize_s (fst col) = Some 1000000 \<or> (\<forall>x \<in> set (snd col). x = 0))"
    by (rule norm_pileups_twice_same_iff)
qed

text \<open>
  C7 as stated fails: depth 10 with library size \<open>2 \<sqdot> 10\<^sup>6\<close> normalizes to 5, and
  normalizing that again gives 5/2.
\<close>

theorem norm_pileups_not_idempotent:
  "norm_pileups (\<lambda>(cov :: unit) df. Inr df)
      \<lparr>index = [''chr1_1''], columns = [(''A'', [10 :: rat])]\<rparr>
      (map_of [(''A'', 2000000)]) None id =
     Inr \<lparr>index = [''chr1_1''], columns = [(''A'', [5])]\<rparr> \<and>
   norm_pileups (\<lambda>(cov :: unit) df. Inr df)
      \<lparr>index = [''chr1_1''], columns = [(''A'', [5 :: rat])]\<rparr>
      (map_of [(''A'', 2000000)]) None id =
     Inr \<lparr>index = [''chr1_1''], columns = [(''A'', [5 / 2])]\<rparr> \<and>
   \<lparr>index = [''chr1_1''], columns = [(''A'', [5 / 2 :: rat])]\<rparr> \<noteq>
     \<lparr>index = [''chr1_1''], columns = [(''A'', [5])]\<rparr>"
  by (simp add: norm_pileups_columns)

text \<open>
  The amended statement at that input (the two results differ), and a table that is
  unchanged: library size \<open>10\<^sup>6\<close> in one column, zeros in the other.
\<close>

theorem norm_pileups_twice_rescales_witness:
  "(\<exists>rpm rpm2.
      norm_pileups (\<lambda>(cov :: unit) df. Inr df)
        \<lparr>index = [''chr1_1''], columns = [(''A'', [10 :: rat])]\<rparr>
        (map_of [(''A'', 2000000)]) None id = Inr rpm \<and>
      norm_pileups (\<lambda>(cov :: unit) df. Inr df) rpm (map_of [(''A'', 2000000)]) None id = Inr rpm2 \<and>
      snd (columns rpm ! 0) ! 0 = 5 \<and> snd (columns rpm2 ! 0) ! 0 = 5 / 2 \<and> rpm2 \<noteq> rpm) \<and>
   norm_pileups (\<lambda>(cov :: unit) df. Inr df)
        \<lparr>index = [''chr1_1'', ''chr1_2''], columns = [(''A'', [3, 8 :: rat]), (''B'', [0, 0])]\<rparr>
        (map_of [(''A'', 1000000), (''B'', 250000)]) None id =
     Inr \<lparr>index = [''chr1_1'', ''chr1_2''], columns = [(''A'', [3, 8 :: rat]), (''B'', [0, 0])]\<rparr>"
proof -
  let ?res = "\<lambda>(cov :: unit) (df :: (string, string, rat) dataframe). Inr df :: error + (string, string, rat) dataframe"
  let ?df = "\<lparr>index = [''chr1_1''], columns = [(''A'', [10 :: rat])]\<rparr>"
  let ?lib = "map_of [(''A'', 2000000 :: rat)]"
  have cover: "fst ` set (columns ?df) \<subseteq> dom ?lib" by simp
  from norm_pileups_twice_rescales [where residualize = ?res, THEN conjunct1, rule_format, OF cover]
  obtain rpm rpm2 where r: "norm_pileups ?res ?df ?lib None id = Inr rpm"
    and r2: "norm_pileups ?res rpm ?lib None id = Inr rpm2"
    and c: "\<forall>j < length (columns rpm).
            length (snd (columns rpm2 ! j)) = length (snd (columns rpm ! j)) \<and>
            (\<forall>p < length (snd (columns rpm ! j)).
               snd (columns rpm2 ! j) ! p =
               snd (columns rpm ! j) ! p / the (?lib (fst (columns rpm ! j))) * 1000000)"
    by blast
  have rpm: "rpm = \<lparr>index = [''chr1_1''], columns = [(''A'', [5 :: rat])]\<rparr>"
    using r by (simp add: norm_pileups_columns)
  from c [rule_format, of 0, THEN conjunct2, rule_format, of 0]
  have cell: "snd (columns rpm2 ! 0) ! 0 = 5 / 2" by (simp add: rpm)
  have nz: "\<forall>c \<in> fst ` set (columns ?df). ?lib c \<noteq> Some 0" by simp
  from norm_pileups_twice_rescales [where residualize' = ?res, THEN conjunct2, rule_format,
      OF cover nz [rule_format] r r2]
  have "rpm2 \<noteq> rpm" by simp
  with cell r r2 rpm have first: "\<exists>rpm rpm2.
      norm_pileups ?res ?df ?lib None id = Inr rpm \<and>
      norm_pileups ?res rpm ?lib None id = Inr rpm2 \<and>
      snd (columns rpm ! 0) ! 0 = 5 \<and> snd (columns rpm2 ! 0) ! 0 = 5 / 2 \<and> rpm2 \<noteq> rpm"
    by auto
  let ?df' = "\<lparr>index = [''chr1_1'', ''chr1_2''], columns = [(''A'', [3, 8 :: rat]), (''B'', [0, 0])]\<rparr>"
  let ?lib' = "map_of [(''A'', 1000000 :: rat), (''B'', 250000)]"
  have r': "norm_pileups ?res ?df' ?lib' None id = Inr ?df'"
    by (simp add: norm_pileups_columns)
  from first r' show ?thesis by blast
qed

section \<open>Grouping by dosage\<close>

text \<open>The dosages, the members of a group and the selection of their columns.\<close>

lemma collect_all_Inr: "collect (map (\<lambda>i. Inr (h i)) xs) = Inr (map h xs)"
  by (induction xs) simp_all

lemma set_unique_dosages: "set (unique_dosages g) = {d. \<exists>s. (s, Some d) \<in> set g}"
  by (force simp: unique_dosages_def map_filter_def)

lemma sorted_unique_dosages: "sorted (unique_dosages g)"
  by (simp add: unique_dosages_def)

lemma distinct_unique_dosages: "distinct (unique_dosages g)"
  by (simp add: unique_dosages_def)

lemma set_members: "set (members g d) = {s. (s, Some d) \<in> set g}"
  by (force simp: members_def)

lemma missing_not_member:
  "distinct (map fst g) \<Longrightarrow> (s, None) \<in> set g \<Longrightarrow> s \<notin> set (members g d)"
  by (auto simp: set_members dest: eq_key_imp_eq_value)

lemma filter_label_distinct:
  "distinct (map fst cols) \<Longrightarrow> l \<in> fst ` set cols \<Longrightarrow>
   filter (\<lambda>col. fst col = l) cols = [(l, the (map_of cols l))]"
proof (induction cols)
  case Nil
  then show ?case by simp
next
  case (Cons c cols)
  show ?case
  proof (cases "fst c = l")
    case True
    with Cons.prems have "l \<notin> fst ` set cols" by auto
    then have "filter (\<lambda>col. fst col = l) cols = []"
      by (auto simp: filter_empty_conv)
    with True show ?thesis by (cases c) simp
  next
    case False
    with Cons show ?thesis by (cases c) auto
  qed
qed

lemma selected_distinct:
  assumes "distinct (map fst cols)" and "set ls \<subseteq> fst ` set cols"
  shows "concat (map (\<lambda>l. filter (\<lambda>col. fst col = l) cols) ls) =
     map (\<lambda>l. (l, the (map_of cols l))) ls"
  using assms(2)
proof (induction ls)
  case Nil
  then show ?case by simp
next
  case (Cons l ls)
  then show ?case by (simp add: filter_label_distinct [OF assms(1)])
qed

lemma select_columns_present:
  assumes "set ls \<subseteq> fst ` set (columns df)"
  shows "select_columns df ls =
     Inr (df\<lparr>columns := concat (map (\<lambda>l. filter (\<lambda>col. fst col = l) (columns df)) ls)\<rparr>)"
proof -
  have "list_all (\<lambda>l. l \<in> fst ` set (columns df)) ls"
    using assms by (auto simp: list_all_iff)
  then show ?thesis by (simp add: select_columns_def)
qed

lemma selected_nonempty:
  assumes "l \<in> set ls" and "l \<in> fst ` set cols"
  shows "concat (map (\<lambda>l. filter (\<lambda>col. fst col = l) cols) ls) \<noteq> []"
proof -
  from assms(2) obtain col where "col \<in> set cols" "fst col = l" by auto
  then have "filter (\<lambda>col. fst col = l) cols \<noteq> []"
    by (auto simp: filter_empty_conv)
  with assms(1) show ?thesis by auto
qed

text \<open>
  With every dosage-carrying sample a column and at least one dosage, the averaging returns
  one column of row means per dosage, each over the columns selected for the group.
\<close>

lemma average_by_dosage_means:
  fixes rpm :: "('r, 'c, 'a::{inverse,semiring_1}) dataframe"
  assumes m: "\<forall>s d. (s, Some d) \<in> set g \<longrightarrow> s \<in> fst ` set (columns rpm)"
    and ne: "\<exists>s d. (s, Some d) \<in> set g"
  shows "average_by_dosage rpm g =
     Inr \<lparr>index = index rpm,
          columns = map (\<lambda>i. (i, mean_axis1 (rpm\<lparr>columns :=
              concat (map (\<lambda>s. filter (\<lambda>col. fst col = s) (columns rpm)) (members g i))\<rparr>)))
            (unique_dosages g)\<rparr>"
proof -
  have sel: "select_columns rpm (members g i) =
      Inr (rpm\<lparr>columns :=
        concat (map (\<lambda>s. filter (\<lambda>col. fst col = s) (columns rpm)) (members g i))\<rparr>)" for i
    using m by (intro select_columns_present) (auto simp: set_members)
  have "unique_dosages g \<noteq> []"
    using ne set_unique_dosages [of g] by auto
  then obtain i0 rest where u: "unique_dosages g = i0 # rest"
    by (cases "unique_dosages g") auto
  have "collect (map (\<lambda>i. case select_columns rpm (members g i) of
                               Inl e \<Rightarrow> Inl e
                             | Inr sub \<Rightarrow> Inr (i, mean_axis1 sub)) (unique_dosages g)) =
        Inr (map (\<lambda>i. (i, mean_axis1 (rpm\<lparr>columns :=
              concat (map (\<lambda>s. filter (\<lambda>col. fst col = s) (columns rpm)) (members g i))\<rparr>)))
               (unique_dosages g))"
    by (simp add: sel collect_all_Inr)
  then show ?thesis
    by (simp add: average_by_dosage_def u)
qed

lemma distinct_members: "distinct (map fst g) \<Longrightarrow> distinct (members g d)"
  by (simp add: members_def distinct_map_filter)

text \<open>
  C2, as amended. Let the dosage series give at least one sample a dosage, and let every
  sample with a dosage be a column label of the normalized table. Then
  \<^verbatim>\<open>group_pileups\<close> returns a table on the index of the normalized table with exactly
  one column per distinct non-missing dosage, in ascending order of dosage. The members of a
  group are exactly the samples of that dosage, and the cell of the group's column at every
  position is the arithmetic mean, at that position, of the normalized columns of the
  group's members: of the columns selected by their labels, which is one column per member
  when the labels of the table are unique. A sample without a dosage is a member of no
  group; in a series with unique samples that is every sample whose dosage is missing. In
  particular the dosages A = 0, B = 1, C = 1 with the normalized profiles A = [2, 2],
  B = [4, 4], C = [6, 6] give 0 = [2, 2], 1 = [5, 5].
\<close>

theorem group_pileups_means:
  "(\<forall>(pileups_df :: ('r, 'c, 'a::{inverse,semiring_1}) dataframe) libsize_s covariates_df id_map rpm g.
      norm_pileups residualize pileups_df libsize_s covariates_df id_map = Inr rpm \<longrightarrow>
      (\<forall>s d. (s, Some d) \<in> set g \<longrightarrow> s \<in> fst ` set (columns rpm)) \<longrightarrow>
      (\<exists>s d. (s, Some d) \<in> set g) \<longrightarrow>
      (\<exists>grouped.
         group_pileups residualize get_genotype pileups_df libsize_s variant_id (GSeries g)
           covariates_df id_map = ([Normalize, Average], Inr grouped) \<and>
         index grouped = index rpm \<and>
         frame_ok grouped \<and>
         sorted (map fst (columns grouped)) \<and>
         distinct (map fst (columns grouped)) \<and>
         set (map fst (columns grouped)) = {d. \<exists>s. (s, Some d) \<in> set g} \<and>
         (\<forall>col \<in> set (columns grouped).
            set (members g (fst col)) = {s. (s, Some (fst col)) \<in> set g} \<and>
            (\<exists>sub.
               select_columns rpm (members g (fst col)) = Inr sub \<and>
               columns sub =
                 concat (map (\<lambda>s. filter (\<lambda>c. fst c = s) (columns rpm)) (members g (fst col))) \<and>
               columns sub \<noteq> [] \<and>
               (\<forall>p < length (index rpm).
                  snd col ! p =
                  sum_list (map (\<lambda>c. snd c ! p) (columns sub)) / of_nat (length (columns sub)))) \<and>
            (distinct (map fst (columns rpm)) \<longrightarrow>
               (\<forall>p < length (index rpm).
                  snd col ! p =
                  sum_list (map (\<lambda>s. the (map_of (columns rpm) s) ! p) (members g (fst col)))
                    / of_nat (length (members g (fst col)))))) \<and>
         (\<forall>s. (\<forall>d. (s, Some d) \<notin> set g) \<longrightarrow> (\<forall>d. s \<notin> set (members g d))) \<and>
         (distinct (map fst g) \<longrightarrow>
            (\<forall>d. distinct (members g d)) \<and>
            (\<forall>s d. (s, None) \<in> set g \<longrightarrow> s \<notin> set (members g d))))) \<and>
   norm_pileups residualize'
     \<lparr>index = [''chr1_1'', ''chr1_2''],
      columns = [(''A'', [2, 2]), (''B'', [4, 4]), (''C'', [6, 6 :: rat])]\<rparr>
     (map_of [(''A'', 1000000), (''B'', 1000000), (''C'', 1000000)]) None id =
   Inr \<lparr>index = [''chr1_1'', ''chr1_2''],
        columns = [(''A'', [2, 2]), (''B'', [4, 4]), (''C'', [6, 6])]\<rparr> \<and>
   group_pileups residualize' get_genotype'
     \<lparr>index = [''chr1_1'', ''chr1_2''],
      columns = [(''A'', [2, 2]), (''B'', [4, 4]), (''C'', [6, 6 :: rat])]\<rparr>
     (map_of [(''A'', 1000000), (''B'', 1000000), (''C'', 1000000)]) variant_id'
     (GSeries [(''A'', Some 0), (''B'', Some 1), (''C'', Some 1)]) None id =
   ([Normalize, Average],
    Inr \<lparr>index = [''chr1_1'', ''chr1_2''], columns = [(0, [2, 2]), (1, [5, 5])]\<rparr>)"
proof (intro conjI allI impI)
  fix pileups_df :: "('r, 'c, 'a) dataframe" and libsize_s :: "'c \<rightharpoonup> 'a"
    and covariates_df id_map rpm and g :: "'c dosages"
  assume r: "norm_pileups residualize pileups_df libsize_s covariates_df id_map = Inr rpm"
    and m: "\<forall>s d. (s, Some d) \<in> set g \<longrightarrow> s \<in> fst ` set (columns rpm)"
    and ne: "\<exists>s d. (s, Some d) \<in> set g"
  define sel where
    "sel = (\<lambda>i. concat (map (\<lambda>s. filter (\<lambda>c. fst c = s) (columns rpm)) (members g i)))"
  define grouped where "grouped = \<lparr>index = index rpm,
     columns = map (\<lambda>i. (i, mean_axis1 (rpm\<lparr>columns := sel i\<rparr>))) (unique_dosages g)\<rparr>"
  have avg: "average_by_dosage rpm g = Inr grouped"
    unfolding grouped_def sel_def by (rule average_by_dosage_means [OF m ne])
  have run: "group_pileups residualize get_genotype pileups_df libsize_s variant_id (GSeries g)
           covariates_df id_map = ([Normalize, Average], Inr grouped)"
    by (simp add: group_pileups_def r avg)
  have labels: "map fst (columns grouped) = unique_dosages g"
    by (simp add: grouped_def comp_def)
  have ok: "frame_ok grouped"
    by (simp add: frame_ok_def grouped_def list_all_iff mean_axis1_def)
  have cells: "set (members g (fst col)) = {s. (s, Some (fst col)) \<in> set g} \<and>
            (\<exists>sub.
               select_columns rpm (members g (fst col)) = Inr sub \<and>
               columns sub =
                 concat (map (\<lambda>s. filter (\<lambda>c. fst c = s) (columns rpm)) (members g (fst col))) \<and>
               columns sub \<noteq> [] \<and>
               (\<forall>p < length (index rpm).
                  snd col ! p =
                  sum_list (map (\<lambda>c. snd c ! p) (columns sub)) / of_nat (length (columns sub)))) \<and>
            (distinct (map fst (columns rpm)) \<longrightarrow>
               (\<forall>p < length (index rpm).
                  snd col ! p =
                  sum_list (map (\<lambda>s. the (map_of (columns rpm) s) ! p) (members g (fst col)))
                    / of_nat (length (members g (fst col)))))"
    if c: "col \<in> set (columns grouped)" for col
  proof -
    from c obtain i where i: "i \<in> set (unique_dosages g)"
      and col: "col = (i, mean_axis1 (rpm\<lparr>columns := sel i\<rparr>))"
      by (auto simp: grouped_def)
    have sub: "set (members g i) \<subseteq> fst ` set (columns rpm)"
      using m by (auto simp: set_members)
    from i obtain s where s: "(s, Some i) \<in> set g"
      by (auto simp: set_unique_dosages)
    then have "s \<in> set (members g i)" "s \<in> fst ` set (columns rpm)"
      using m by (auto simp: set_members)
    then have nonempty: "sel i \<noteq> []"
      unfolding sel_def by (rule selected_nonempty)
    have select: "select_columns rpm (members g i) = Inr (rpm\<lparr>columns := sel i\<rparr>)"
      unfolding sel_def by (rule select_columns_present [OF sub])
    have mean: "\<forall>p < length (index rpm).
        snd col ! p = sum_list (map (\<lambda>c. snd c ! p) (sel i)) / of_nat (length (sel i))"
      by (simp add: col mean_axis1_def)
    have one: "\<forall>p < length (index rpm).
        snd col ! p = sum_list (map (\<lambda>s. the (map_of (columns rpm) s) ! p) (members g i))
          / of_nat (length (members g i))"
      if d: "distinct (map fst (columns rpm))"
    proof -
      have "sel i = map (\<lambda>l. (l, the (map_of (columns rpm) l))) (members g i)"
        unfolding sel_def by (rule selected_distinct [OF d sub])
      with mean show ?thesis by (simp add: comp_def)
    qed
    have "\<exists>sub.
               select_columns rpm (members g i) = Inr sub \<and>
               columns sub = sel i \<and>
               columns sub \<noteq> [] \<and>
               (\<forall>p < length (index rpm).
                  snd col ! p =
                  sum_list (map (\<lambda>c. snd c ! p) (columns sub)) / of_nat (length (columns sub)))"
      using select nonempty mean by (intro exI [of _ "rpm\<lparr>columns := sel i\<rparr>"]) simp
    moreover have "fst col = i" by (simp add: col)
    ultimately show ?thesis
      using one by (simp add: set_members sel_def)
  qed
  have nodosage: "\<forall>s. (\<forall>d. (s, Some d) \<notin> set g) \<longrightarrow> (\<forall>d. s \<notin> set (members g d))"
    by (simp add: set_members)
  have mapping: "distinct (map fst g) \<longrightarrow>
            (\<forall>d. distinct (members g d)) \<and>
            (\<forall>s d. (s, None) \<in> set g \<longrightarrow> s \<notin> set (members g d))"
    using missing_not_member [of g] distinct_members [of g] by blast
  show "\<exists>grouped.
         group_pileups residualize get_genotype pileups_df libsize_s variant_id (GSeries g)
           covariates_df id_map = ([Normalize, Average], Inr grouped) \<and>
         index grouped = index rpm \<and>
         frame_ok grouped \<and>
         sorted (map fst (columns grouped)) \<and>
         distinct (map fst (columns grouped)) \<and>
         set (map fst (columns grouped)) = {d. \<exists>s. (s, Some d) \<in> set g} \<and>
         (\<forall>col \<in> set (columns grouped).
            set (members g (fst col)) = {s. (s, Some (fst col)) \<in> set g} \<and>
            (\<exists>sub.
               select_columns rpm (members g (fst col)) = Inr sub \<and>
               columns sub =
                 concat (map (\<lambda>s. filter (\<lambda>c. fst c = s) (columns rpm)) (members g (fst col))) \<and>
               columns sub \<noteq> [] \<and>
               (\<forall>p < length (index rpm).
                  snd col ! p =
                  sum_list (map (\<lambda>c. snd c ! p) (columns sub)) / of_nat (length (columns sub)))) \<and>
            (distinct (map fst (columns rpm)) \<longrightarrow>
               (\<forall>p < length (index rpm).
                  snd col ! p =
                  sum_list (map (\<lambda>s. the (map_of (columns rpm) s) ! p) (members g (fst col)))
                    / of_nat (length (members g (fst col)))))) \<and>
         (\<forall>s. (\<forall>d. (s, Some d) \<notin> set g) \<longrightarrow> (\<forall>d. s \<notin> set (members g d))) \<and>
         (distinct (map fst g) \<longrightarrow>
            (\<forall>d. distinct (members g d)) \<and>
            (\<forall>s d. (s, None) \<in> set g \<longrightarrow> s \<notin> set (members g d)))"
  proof (intro exI [of _ grouped] conjI)
    show "index grouped = index rpm" by (simp add: grouped_def)
    show "sorted (map fst (columns grouped))" by (simp only: labels sorted_unique_dosages)
    show "distinct (map fst (columns grouped))" by (simp only: labels distinct_unique_dosages)
    show "set (map fst (columns grouped)) = {d. \<exists>s. (s, Some d) \<in> set g}"
      by (simp only: labels set_unique_dosages)
    show "\<forall>col \<in> set (columns grouped).
            set (members g (fst col)) = {s. (s, Some (fst col)) \<in> set g} \<and>
            (\<exists>sub.
               select_columns rpm (members g (fst col)) = Inr sub \<and>
               columns sub =
                 concat (map (\<lambda>s. filter (\<lambda>c. fst c = s) (columns rpm)) (members g (fst col))) \<and>
               columns sub \<noteq> [] \<and>
               (\<forall>p < length (index rpm).
                  snd col ! p =
                  sum_list (map (\<lambda>c. snd c ! p) (columns sub)) / of_nat (length (columns sub)))) \<and>
            (distinct (map fst (columns rpm)) \<longrightarrow>
               (\<forall>p < length (index rpm).
                  snd col ! p =
                  sum_list (map (\<lambda>s. the (map_of (columns rpm) s) ! p) (members g (fst col)))
                    / of_nat (length (members g (fst col)))))"
      using cells by blast
  qed (fact run ok nodosage mapping)+
next
  show "norm_pileups residualize'
     \<lparr>index = [''chr1_1'', ''chr1_2''],
      columns = [(''A'', [2, 2]), (''B'', [4, 4]), (''C'', [6, 6 :: rat])]\<rparr>
     (map_of [(''A'', 1000000), (''B'', 1000000), (''C'', 1000000)]) None id =
   Inr \<lparr>index = [''chr1_1'', ''chr1_2''],
        columns = [(''A'', [2, 2]), (''B'', [4, 4]), (''C'', [6, 6])]\<rparr>"
    by (simp add: norm_pileups_columns)
  then show "group_pileups residualize' get_genotype'
     \<lparr>index = [''chr1_1'', ''chr1_2''],
      columns = [(''A'', [2, 2]), (''B'', [4, 4]), (''C'', [6, 6 :: rat])]\<rparr>
     (map_of [(''A'', 1000000), (''B'', 1000000), (''C'', 1000000)]) variant_id'
     (GSeries [(''A'', Some 0), (''B'', Some 1), (''C'', Some 1)]) None id =
   ([Normalize, Average],
    Inr \<lparr>index = [''chr1_1'', ''chr1_2''], columns = [(0, [2, 2]), (1, [5, 5])]\<rparr>)"
    by (simp add: group_pileups_def average_by_dosage_def unique_dosages_def map_filter_def
        members_def select_columns_def mean_axis1_def)
qed

text \<open>
  C2 as stated fails for a dosage series without any dosage: \<^verbatim>\<open>pd.concat\<close>
  refuses the empty list of group means, so no table of zero columns is produced. It also
  fails for a dosage of a sample that is not a column of the table.
\<close>

theorem group_pileups_no_dosage_raises:
  "group_pileups (\<lambda>(cov :: unit) df. Inr df) (\<lambda>v p. Inl (ExternalError []))
     \<lparr>index = [''chr1_1''], columns = [(''A'', [2 :: rat])]\<rparr>
     (map_of [(''A'', 1000000)]) ''chr1_1_A_G'' (GSeries [(''A'', None)]) None id =
   ([Normalize, Average], Inl (ValueError ''No objects to concatenate'')) \<and>
   group_pileups (\<lambda>(cov :: unit) df. Inr df) (\<lambda>v p. Inl (ExternalError []))
     \<lparr>index = [''chr1_1''], columns = [(''A'', [2 :: rat])]\<rparr>
     (map_of [(''A'', 1000000)]) ''chr1_1_A_G'' (GSeries [(''D'', Some 0)]) None id =
   ([Normalize, Average], Inl KeyError)"
  by (simp add: group_pileups_def norm_pileups_columns average_by_dosage_def unique_dosages_def
      map_filter_def members_def select_columns_def)

text \<open>
  The amended statement at a table in which two columns carry the label of one sample (as
  after a merging \<^verbatim>\<open>id_map\<close>) and one sample has no dosage: the group of dosage 2
  averages the three columns of its two members.
\<close>

theorem group_pileups_means_witness:
  "\<exists>grouped.
     group_pileups (\<lambda>(cov :: unit) df. Inr df) (\<lambda>v p. Inl (ExternalError []))
       \<lparr>index = [''chr1_1'', ''chr1_2''],
        columns = [(''S1'', [1, 3]), (''S2'', [2, 4]), (''S3'', [9, 9]), (''S1'', [3, 5]),
                   (''S4'', [5, 7 :: rat])]\<rparr>
       (map_of [(''S1'', 1000000), (''S2'', 1000000), (''S3'', 1000000), (''S4'', 1000000)])
       ''chr1_1_A_G''
       (GSeries [(''S1'', Some 2), (''S2'', None), (''S3'', Some 0), (''S4'', Some 2)]) None id =
     ([Normalize, Average], Inr grouped) \<and>
     index grouped = [''chr1_1'', ''chr1_2''] \<and>
     set (map fst (columns grouped)) = {0, 2} \<and>
     sorted (map fst (columns grouped)) \<and>
     columns grouped = [(0, [9, 9]), (2, [3, 5])] \<and>
     ''S2'' \<notin> set (members [(''S1'', Some 2), (''S2'', None), (''S3'', Some 0), (''S4'', Some 2)] 2)"
proof -
  let ?res = "\<lambda>(cov :: unit) (df :: (string, string, rat) dataframe).
     Inr df :: error + (string, string, rat) dataframe"
  let ?get = "\<lambda>(v :: string) (p :: string). Inl (ExternalError []) :: error + string dosages"
  let ?df = "\<lparr>index = [''chr1_1'', ''chr1_2''],
     columns = [(''S1'', [1, 3]), (''S2'', [2, 4]), (''S3'', [9, 9]), (''S1'', [3, 5]),
                (''S4'', [5, 7 :: rat])]\<rparr>"
  let ?lib = "map_of [(''S1'', 1000000 :: rat), (''S2'', 1000000), (''S3'', 1000000),
     (''S4'', 1000000)]"
  let ?g = "[(''S1'', Some 2), (''S2'', None), (''S3'', Some 0), (''S4'', Some (2 :: int))]"
  have r: "norm_pileups ?res ?df ?lib None id = Inr ?df"
    by (simp add: norm_pileups_columns)
  have dg: "distinct (map fst ?g)" by simp
  have m: "\<forall>s d. (s, Some d) \<in> set ?g \<longrightarrow> s \<in> fst ` set (columns ?df)" by auto
  have ne: "\<exists>s d. (s, Some d) \<in> set ?g" by auto
  have vals: "{d. \<exists>s. (s, Some d) \<in> set ?g} = {0, 2}" by auto
  from group_pileups_means [where residualize = ?res and get_genotype = ?get
      and variant_id = "''chr1_1_A_G''", THEN conjunct1, rule_format, OF r _ ne]
  obtain grouped where run:
    "group_pileups ?res ?get ?df ?lib ''chr1_1_A_G'' (GSeries ?g) None id =
       ([Normalize, Average], Inr grouped)" and
    "index grouped = index ?df"
    "sorted (map fst (columns grouped))"
    "set (map fst (columns grouped)) = {d. \<exists>s. (s, Some d) \<in> set ?g}"
    "distinct (map fst ?g) \<longrightarrow>
       (\<forall>d. distinct (members ?g d)) \<and>
       (\<forall>s d. (s, None) \<in> set ?g \<longrightarrow> s \<notin> set (members ?g d))"
    using m by blast
  moreover have "columns grouped = [(0, [9, 9]), (2, [3, 5])]"
    using run r
    by (auto simp: group_pileups_def average_by_dosage_def unique_dosages_def map_filter_def
        members_def select_columns_def mean_axis1_def)
  ultimately show ?thesis
    using run dg unfolding vals by (intro exI [of _ grouped]) simp
qed

section \<open>The genotype source\<close>

text \<open>
  C6, as amended. For every \<^verbatim>\<open>genotypes\<close> argument that is neither a pandas Series
  nor a string ending in \<^verbatim>\<open>.vcf.gz\<close>, \<^verbatim>\<open>group_pileups\<close> first runs the
  normalization (line 87) and nothing else: if the normalization raises, its exception is
  the outcome; otherwise the outcome is
  \<^verbatim>\<open>ValueError('Unsupported format for genotypes.')\<close>, raised before any genotype
  lookup and before any averaging.
\<close>

theorem group_pileups_unsupported_genotypes:
  "(\<forall>g. genotypes \<noteq> GSeries g) \<Longrightarrow>
   (\<forall>path. genotypes = GStr path \<longrightarrow> \<not> endswith path ''.vcf.gz'') \<Longrightarrow>
   group_pileups residualize get_genotype pileups_df libsize_s variant_id genotypes
     covariates_df id_map =
   ([Normalize],
    case norm_pileups residualize pileups_df libsize_s covariates_df id_map of
      Inl e \<Rightarrow> Inl e
    | Inr pileups_rpm_df \<Rightarrow> Inl (ValueError ''Unsupported format for genotypes.''))"
  by (cases genotypes) (simp_all add: group_pileups_def split: sum.splits)

text \<open>
  C6 as stated fails: with an unsupported \<^verbatim>\<open>genotypes\<close> and library sizes that
  lack the sample, the exception is the KeyError of the normalization, not a ValueError; and
  with library sizes that cover the sample the normalization has run when the ValueError is
  raised.
\<close>

theorem group_pileups_normalizes_before_rejecting:
  "group_pileups (\<lambda>(cov :: unit) df. Inr df) (\<lambda>v p. Inl (ExternalError []))
     \<lparr>index = [''chr1_1''], columns = [(''A'', [2 :: rat])]\<rparr>
     Map.empty ''chr1_1_A_G'' GOther None id =
   ([Normalize], Inl KeyError) \<and>
   group_pileups (\<lambda>(cov :: unit) df. Inr df) (\<lambda>v p. Inl (ExternalError []))
     \<lparr>index = [''chr1_1''], columns = [(''A'', [2 :: rat])]\<rparr>
     (map_of [(''A'', 1000000)]) ''chr1_1_A_G'' GOther None id =
   ([Normalize], Inl (ValueError ''Unsupported format for genotypes.''))"
  by (simp add: group_pileups_def norm_pileups_def getitem_labels_def div_columns_def
      mul_scalar_def rename_columns_def)

text \<open>The amended statement at a path ending in \<^verbatim>\<open>.vcf\<close> and at another object.\<close>

theorem group_pileups_unsupported_genotypes_witness:
  "group_pileups (\<lambda>(cov :: unit) df. Inr df) (\<lambda>v p. Inl (ExternalError []))
     \<lparr>index = [''chr1_1''], columns = [(''A'', [2 :: rat])]\<rparr>
     (map_of [(''A'', 1000000)]) ''chr1_1_A_G'' (GStr ''calls.vcf'') None id =
   ([Normalize], Inl (ValueError ''Unsupported format for genotypes.'')) \<and>
   group_pileups (\<lambda>(cov :: unit) df. Inr df) (\<lambda>v p. Inl (ExternalError []))
     \<lparr>index = [''chr1_1''], columns = [(''A'', [2 :: rat])]\<rparr>
     Map.empty ''chr1_1_A_G'' (GOther :: string genotypes) None id =
   ([Normalize], Inl KeyError)"
proof -
  let ?res = "\<lambda>(cov :: unit) (df :: (string, string, rat) dataframe).
     Inr df :: error + (string, string, rat) dataframe"
  let ?get = "\<lambda>(v :: string) (p :: string). Inl (ExternalError []) :: error + string dosages"
  let ?df = "\<lparr>index = [''chr1_1''], columns = [(''A'', [2 :: rat])]\<rparr>"
  have a: "\<forall>g. GStr ''calls.vcf'' \<noteq> (GSeries g :: string genotypes)" by simp
  have b: "\<forall>path. (GStr ''calls.vcf'' :: string genotypes) = GStr path \<longrightarrow>
      \<not> endswith path ''.vcf.gz''"
    by (simp add: endswith_def)
  have n: "norm_pileups ?res ?df (map_of [(''A'', 1000000)]) None id = Inr ?df"
    by (simp add: norm_pileups_columns)
  have c: "\<forall>g. GOther \<noteq> (GSeries g :: string genotypes)" by simp
  have d: "\<forall>path. (GOther :: string genotypes) = GStr path \<longrightarrow> \<not> endswith path ''.vcf.gz''"
    by simp
  have n': "norm_pileups ?res ?df Map.empty None id = Inl KeyError"
    by (simp add: norm_pileups_def getitem_labels_def)
  from group_pileups_unsupported_genotypes [OF a b, of ?res ?get ?df "map_of [(''A'', 1000000)]"
      "''chr1_1_A_G''" None id]
  have first: "group_pileups ?res ?get ?df (map_of [(''A'', 1000000)]) ''chr1_1_A_G''
      (GStr ''calls.vcf'') None id =
      ([Normalize], Inl (ValueError ''Unsupported format for genotypes.''))"
    by (simp only: n sum.case)
  from group_pileups_unsupported_genotypes [OF c d, of ?res ?get ?df Map.empty
      "''chr1_1_A_G''" None id]
  have "group_pileups ?res ?get ?df Map.empty ''chr1_1_A_G'' GOther None id =
      ([Normalize], Inl KeyError)"
    by (simp only: n' sum.case)
  with first show ?thesis by blast
qed

text \<open>
  C10, as amended. For every string \<^verbatim>\<open>genotypes\<close>: \<^verbatim>\<open>gt.get_genotype\<close> is
  called only when the string ends with \<^verbatim>\<open>.vcf.gz\<close>, and then with the variant and
  that path. Every other string is rejected without a lookup and without averaging, after
  the normalization of line 87 has run: with
  \<^verbatim>\<open>ValueError('Unsupported format for genotypes.')\<close> when the normalization has
  returned, and with the exception of the normalization when it has raised. When the
  normalization has returned, a string that ends with \<^verbatim>\<open>.vcf.gz\<close> is looked up.
  Paths ending in \<^verbatim>\<open>.vcf\<close> or \<^verbatim>\<open>.bcf\<close> are among the rejected.
\<close>

theorem group_pileups_vcf_gz_only:
  "(\<forall>v p. GetGenotype v p \<in> set (fst (group_pileups residualize get_genotype pileups_df
        libsize_s variant_id (GStr path) covariates_df id_map)) \<longrightarrow>
      endswith path ''.vcf.gz'' \<and> v = variant_id \<and> p = path) \<and>
   (\<not> endswith path ''.vcf.gz'' \<longrightarrow>
      group_pileups residualize get_genotype pileups_df libsize_s variant_id (GStr path)
        covariates_df id_map =
      ([Normalize],
       case norm_pileups residualize pileups_df libsize_s covariates_df id_map of
         Inl e \<Rightarrow> Inl e
       | Inr pileups_rpm_df \<Rightarrow> Inl (ValueError ''Unsupported format for genotypes.''))) \<and>
   (\<forall>pileups_rpm_df.
      norm_pileups residualize pileups_df libsize_s covariates_df id_map = Inr pileups_rpm_df \<longrightarrow>
      (endswith path ''.vcf.gz'' \<longrightarrow>
         GetGenotype variant_id path \<in> set (fst (group_pileups residualize get_genotype pileups_df
           libsize_s variant_id (GStr path) covariates_df id_map))) \<and>
      (\<not> endswith path ''.vcf.gz'' \<longrightarrow>
         group_pileups residualize get_genotype pileups_df libsize_s variant_id (GStr path)
           covariates_df id_map =
         ([Normalize], Inl (ValueError ''Unsupported format for genotypes.'')))) \<and>
   \<not> endswith ''calls.vcf'' ''.vcf.gz'' \<and> \<not> endswith ''calls.bcf'' ''.vcf.gz''"
  by (auto simp: group_pileups_def endswith_def split: sum.splits if_splits)

text \<open>
  C10 as stated fails: with library sizes that lack the sample, the path
  \<^verbatim>\<open>calls.vcf\<close> is rejected with the KeyError of the normalization, not with a
  ValueError.
\<close>

theorem group_pileups_string_rejected_by_normalization:
  "group_pileups (\<lambda>(cov :: unit) df. Inr df) (\<lambda>v p. Inr [(''A'', Some 1)])
     \<lparr>index = [''chr1_1''], columns = [(''A'', [2 :: rat])]\<rparr>
     Map.empty ''chr1_1_A_G'' (GStr ''calls.vcf'') None id =
   ([Normalize], Inl KeyError)"
  by (simp add: group_pileups_def norm_pileups_def getitem_labels_def)

text \<open>
  The amended statement at the paths \<^verbatim>\<open>calls.bcf\<close> (with and without the library
  size of the sample) and \<^verbatim>\<open>calls.vcf.gz\<close>.
\<close>

theorem group_pileups_vcf_gz_only_witness:
  "group_pileups (\<lambda>(cov :: unit) df. Inr df) (\<lambda>v p. Inr [(''A'', Some 1)])
     \<lparr>index = [''chr1_1''], columns = [(''A'', [2 :: rat])]\<rparr>
     (map_of [(''A'', 1000000)]) ''chr1_1_A_G'' (GStr ''calls.bcf'') None id =
   ([Normalize], Inl (ValueError ''Unsupported format for genotypes.'')) \<and>
   group_pileups (\<lambda>(cov :: unit) df. Inr df) (\<lambda>v p. Inr [(''A'', Some 1)])
     \<lparr>index = [''chr1_1''], columns = [(''A'', [2 :: rat])]\<rparr>
     Map.empty ''chr1_1_A_G'' (GStr ''calls.bcf'') None id =
   ([Normalize], Inl KeyError) \<and>
   GetGenotype ''chr1_1_A_G'' ''calls.vcf.gz'' \<in> set (fst (
     group_pileups (\<lambda>(cov :: unit) df. Inr df) (\<lambda>v p. Inr [(''A'', Some 1)])
       \<lparr>index = [''chr1_1''], columns = [(''A'', [2 :: rat])]\<rparr>
       (map_of [(''A'', 1000000)]) ''chr1_1_A_G'' (GStr ''calls.vcf.gz'') None id))"
proof -
  let ?res = "\<lambda>(cov :: unit) (df :: (string, string, rat) dataframe).
     Inr df :: error + (string, string, rat) dataframe"
  let ?get = "\<lambda>(v :: string) (p :: string). Inr [(''A'', Some 1)] :: error + string dosages"
  let ?df = "\<lparr>index = [''chr1_1''], columns = [(''A'', [2 :: rat])]\<rparr>"
  have n: "norm_pileups ?res ?df (map_of [(''A'', 1000000)]) None id = Inr ?df"
    by (simp add: norm_pileups_columns)
  have n': "norm_pileups ?res ?df Map.empty None id = Inl KeyError"
    by (simp add: norm_pileups_def getitem_labels_def)
  have no: "\<not> endswith ''calls.bcf'' ''.vcf.gz''" by (simp add: endswith_def)
  have yes: "endswith ''calls.vcf.gz'' ''.vcf.gz''" by (simp add: endswith_def)
  from group_pileups_vcf_gz_only [of ?res ?get ?df "map_of [(''A'', 1000000)]" "''chr1_1_A_G''"
      "''calls.bcf''" None id, THEN conjunct2, THEN conjunct2, THEN conjunct1, rule_format, OF n]
  have first: "group_pileups ?res ?get ?df (map_of [(''A'', 1000000)]) ''chr1_1_A_G''
      (GStr ''calls.bcf'') None id =
      ([Normalize], Inl (ValueError ''Unsupported format for genotypes.''))"
    using no by blast
  from group_pileups_vcf_gz_only [of ?res ?get ?df Map.empty "''chr1_1_A_G''"
      "''calls.bcf''" None id, THEN conjunct2, THEN conjunct1, rule_format, OF no]
  have second: "group_pileups ?res ?get ?df Map.empty ''chr1_1_A_G''
      (GStr ''calls.bcf'') None id = ([Normalize], Inl KeyError)"
    by (simp only: n' sum.case)
  from group_pileups_vcf_gz_only [of ?res ?get ?df "map_of [(''A'', 1000000)]" "''chr1_1_A_G''"
      "''calls.vcf.gz''" None id, THEN conjunct2, THEN conjunct2, THEN conjunct1, rule_format, OF n]
  have "GetGenotype ''chr1_1_A_G'' ''calls.vcf.gz'' \<in> set (fst (
     group_pileups ?res ?get ?df (map_of [(''A'', 1000000)]) ''chr1_1_A_G''
       (GStr ''calls.vcf.gz'') None id))"
    using yes by blast
  with first second show ?thesis by blast
qed

section \<open>The working directory of a depth task\<close>

text \<open>
  Without an index directory the task never changes the working directory; with one, a task
  whose external call returns leaves the working directory as it found it.
\<close>

lemma wrapper_without_index_dir:
  "snd (samtools_depth_wrapper is_dir check_output to_series
      (bam_file, region_str, sample_id, None, depth) cwd) = cwd"
  by (simp add: samtools_depth_wrapper_def split: sum.splits prod.splits)

lemma wrapper_restores_on_success:
  assumes "is_dir d" and "is_dir cwd"
    and "check_output d (depth_cmd bam_file region_str depth) = Inr c"
  shows "snd (samtools_depth_wrapper is_dir check_output to_series
      (bam_file, region_str, sample_id, Some d, depth) cwd) = cwd"
  using assms
  by (simp add: samtools_depth_wrapper_def cd_def os_chdir_def split: sum.splits prod.splits)

text \<open>
  C3 fails on the code. When the index directory exists and the external call raises, the
  task raises that exception and leaves the process in the index directory: line 24, which
  would restore the saved directory, is not reached, because the generator of
  \<^verbatim>\<open>cd\<close> has no \<^verbatim>\<open>try ... finally\<close> around its \<^verbatim>\<open>yield\<close>.
\<close>

theorem wrapper_leaves_index_dir_on_failure:
  assumes "is_dir d"
    and "check_output d (depth_cmd bam_file region_str depth) = Inl e"
  shows "samtools_depth_wrapper is_dir check_output to_series
      (bam_file, region_str, sample_id, Some d, depth) cwd = (Inl e, d)"
  using assms by (simp add: samtools_depth_wrapper_def cd_def os_chdir_def)

text \<open>
  A task started in \<^verbatim>\<open>/home/user\<close> with the index directory
  \<^verbatim>\<open>/data/index\<close> whose \<^verbatim>\<open>samtools\<close> exits with status 1.
\<close>

theorem wrapper_leaves_index_dir_on_failure_witness:
  "samtools_depth_wrapper (\<lambda>p. True) (\<lambda>wd cmd. Inl (CalledProcessError 1))
      (\<lambda>sample_id c. Inr ([] :: string list, [] :: int list))
      (''s1.bam'', ''chr1:100-200'', ''S1'', Some ''/data/index'', 100000) ''/home/user'' =
     (Inl (CalledProcessError 1), ''/data/index'') \<and>
   ''/data/index'' \<noteq> ''/home/user''"
proof -
  have "samtools_depth_wrapper (\<lambda>p. True) (\<lambda>wd cmd. Inl (CalledProcessError 1))
      (\<lambda>sample_id c. Inr ([] :: string list, [] :: int list))
      (''s1.bam'', ''chr1:100-200'', ''S1'', Some ''/data/index'', 100000) ''/home/user'' =
     (Inl (CalledProcessError 1), ''/data/index'')"
    by (rule wrapper_leaves_index_dir_on_failure) simp_all
  then show ?thesis by simp
qed

section \<open>The merged table does not depend on the pool\<close>

text \<open>A pool of one worker completes the tasks in submission order.\<close>

lemma pool_schedule_sequential: "pool_schedule 1 n [0..<n]"
  by (simp add: pool_schedule_def list_all_iff)

text \<open>
  Whatever the completion order, the iterator hands the results out in submission order.
\<close>

lemma filter_eq_singleton:
  "distinct xs \<Longrightarrow> i \<in> set xs \<Longrightarrow> filter (\<lambda>j. i = j) xs = [i]"
  by (induction xs) (auto simp: filter_empty_conv)

lemma pool_imap_in_order:
  assumes "mset completion = mset [0..<length tasks]"
  shows "pool_imap completion f tasks = map f tasks"
proof -
  define g where "g = (\<lambda>k. (k, f (tasks ! k)))"
  have dist: "distinct completion"
    using assms by (metis distinct_upt mset_eq_imp_distinct_iff)
  have sets: "set completion = set [0..<length tasks]"
    using assms by (rule mset_eq_setD)
  have "sort_key fst (map g completion) = map g [0..<length tasks]"
  proof (rule properties_for_sort_key)
    show "mset (map g [0..<length tasks]) = mset (map g completion)"
      using assms by (metis mset_map)
  next
    fix k assume "k \<in> set (map g [0..<length tasks])"
    then obtain i where i: "i < length tasks" "k = g i" by auto
    have "filter (\<lambda>x. fst k = fst x) (map g [0..<length tasks]) =
          map g (filter (\<lambda>j. i = j) [0..<length tasks])"
      by (simp add: filter_map comp_def i g_def)
    also have "\<dots> = [g i]"
      using i by (simp add: filter_eq_singleton)
    finally have a: "filter (\<lambda>x. fst k = fst x) (map g [0..<length tasks]) = [g i]" .
    have "filter (\<lambda>x. fst k = fst x) (map g completion) =
          map g (filter (\<lambda>j. i = j) completion)"
      by (simp add: filter_map comp_def i g_def)
    also have "\<dots> = [g i]"
      using i dist sets by (simp add: filter_eq_singleton)
    finally show "filter (\<lambda>x. fst k = fst x) (map g [0..<length tasks]) =
        filter (\<lambda>x. fst k = fst x) (map g completion)"
      using a by simp
  next
    show "sorted (map fst (map g [0..<length tasks]))"
      by (simp add: g_def comp_def)
  qed
  then have "pool_imap completion f tasks = map snd (map g [0..<length tasks])"
    by (simp add: pool_imap_def g_def)
  also have "\<dots> = map (\<lambda>k. f (tasks ! k)) [0..<length tasks]"
    by (simp add: g_def comp_def)
  also have "\<dots> = map f tasks"
    by (rule nth_equalityI) simp_all
  finally show ?thesis .
qed

text \<open>The columns of the merged table are named by the samples of the tasks, in order.\<close>

lemma collect_Inr_names:
  "collect rs = Inr xs \<Longrightarrow> rs = map Inr xs"
proof (induction rs arbitrary: xs)
  case Nil
  then show ?case by simp
next
  case (Cons r rs)
  then show ?case by (cases r) (auto split: sum.splits)
qed

lemma wrapper_series_name:
  "fst (samtools_depth_wrapper is_dir check_output to_series
      (bam_file, region_str, sample_id, bam_index_dir, depth) cwd) = Inr s \<Longrightarrow>
   s_name s = sample_id"
  by (auto simp: samtools_depth_wrapper_def Let_def split: sum.splits prod.splits option.splits)

lemma concat_axis1_labels:
  "concat_axis1 union_index reindex ss = Inr df \<Longrightarrow> map fst (columns df) = map s_name ss"
  by (auto simp: concat_axis1_def comp_def split: list.splits if_splits sum.splits)

text \<open>
  C4. For every sample mapping, every pool size of at least one worker and every completion
  order possible for that pool, \<^verbatim>\<open>samtools_depth\<close> has the outcome (the merged
  table or the exception) of the run with one worker, which completes the tasks in
  submission order; so runs with any two pool sizes and completion orders agree in column
  order and values. When a table is returned, its column labels are the samples in their
  input order.
\<close>

theorem samtools_depth_order_independent:
  assumes "1 \<le> num_threads"
    and "pool_schedule (nat num_threads) (length bam_s) completion"
  shows "samtools_depth is_dir check_output to_series union_index reindex cwd completion
           region_str bam_s bam_index_dir d num_threads =
         samtools_depth is_dir check_output to_series union_index reindex cwd [0..<length bam_s]
           region_str bam_s bam_index_dir d 1 \<and>
         (\<forall>pileups_df.
            samtools_depth is_dir check_output to_series union_index reindex cwd completion
              region_str bam_s bam_index_dir d num_threads = Inr pileups_df \<longrightarrow>
            map fst (columns pileups_df) = map fst bam_s)"
proof -
  define tasks where "tasks = map (\<lambda>(j, i). (i, region_str, j, bam_index_dir, d)) bam_s"
  define f where "f = (\<lambda>args. fst (samtools_depth_wrapper is_dir check_output to_series args cwd))"
  have len: "length tasks = length bam_s" by (simp add: tasks_def)
  have perm: "mset completion = mset [0..<length tasks]"
    using assms(2) by (simp add: pool_schedule_def len)
  have imap: "pool_imap completion f tasks = map f tasks"
    by (rule pool_imap_in_order [OF perm])
  have imap1: "pool_imap [0..<length bam_s] f tasks = map f tasks"
    by (rule pool_imap_in_order) (simp add: len)
  have run: "samtools_depth is_dir check_output to_series union_index reindex cwd completion
           region_str bam_s bam_index_dir d num_threads =
        (case collect (map f tasks) of
           Inl e \<Rightarrow> Inl e
         | Inr pileups_df \<Rightarrow> concat_axis1 union_index reindex pileups_df)"
    using assms(1) imap by (simp add: samtools_depth_def tasks_def f_def)
  have run1: "samtools_depth is_dir check_output to_series union_index reindex cwd
           [0..<length bam_s] region_str bam_s bam_index_dir d 1 =
        (case collect (map f tasks) of
           Inl e \<Rightarrow> Inl e
         | Inr pileups_df \<Rightarrow> concat_axis1 union_index reindex pileups_df)"
    using imap1 by (simp add: samtools_depth_def tasks_def f_def)
  have order: "map fst (columns pileups_df) = map fst bam_s"
    if "samtools_depth is_dir check_output to_series union_index reindex cwd completion
           region_str bam_s bam_index_dir d num_threads = Inr pileups_df" for pileups_df
  proof -
    from that run obtain ss where c: "collect (map f tasks) = Inr ss"
      and t: "concat_axis1 union_index reindex ss = Inr pileups_df"
      by (auto split: sum.splits)
    from c have m: "map f tasks = map Inr ss" by (rule collect_Inr_names)
    then have l: "length ss = length bam_s"
      using len by (metis length_map)
    have "map s_name ss = map fst bam_s"
    proof (rule nth_equalityI)
      show "length (map s_name ss) = length (map fst bam_s)" using l by simp
    next
      fix k assume "k < length (map s_name ss)"
      then have k: "k < length bam_s" using l by simp
      obtain j i where ji: "bam_s ! k = (j, i)" by (cases "bam_s ! k")
      have "f (tasks ! k) = Inr (ss ! k)"
        using m k len l by (metis nth_map)
      moreover have "tasks ! k = (i, region_str, j, bam_index_dir, d)"
        using k ji by (simp add: tasks_def)
      ultimately have "s_name (ss ! k) = j"
        unfolding f_def by (auto dest: wrapper_series_name)
      then show "map s_name ss ! k = map fst bam_s ! k"
        using k l ji by simp
    qed
    with concat_axis1_labels [OF t] show ?thesis by simp
  qed
  from run run1 order show ?thesis by simp
qed

text \<open>
  Three samples on two workers, the second task completing first: the table of the
  sequential run, columns in input order.
\<close>

theorem samtools_depth_order_independent_witness:
  "samtools_depth (\<lambda>p. True) (\<lambda>wd cmd. Inr [''chr1 1 0''])
       (\<lambda>sample_id c. Inr ([''chr1_1''], [int (length sample_id)]))
       (\<lambda>idxs. Inl (ValueError ''index'')) (\<lambda>u idx vals. vals) ''/home/user'' [1, 0, 2]
       ''chr1:1-1'' [(''S1'', ''a.bam''), (''S22'', ''b.bam''), (''S333'', ''c.bam'')] None 100000 2 =
     Inr \<lparr>index = [''chr1_1''], columns = [(''S1'', [2]), (''S22'', [3]), (''S333'', [4])]\<rparr>"
proof -
  have one: "(1 :: int) \<le> 2" by simp
  have sched: "pool_schedule (nat 2) (length [(''S1'', ''a.bam''), (''S22'', ''b.bam''),
      (''S333'', ''c.bam'')]) [1, 0, 2]"
    by (simp add: pool_schedule_def upt_rec)
  have seq: "samtools_depth (\<lambda>p. True) (\<lambda>wd cmd. Inr [''chr1 1 0''])
       (\<lambda>sample_id c. Inr ([''chr1_1''], [int (length sample_id)]))
       (\<lambda>idxs. Inl (ValueError ''index'')) (\<lambda>u idx vals. vals) ''/home/user''
       [0..<length [(''S1'', ''a.bam''), (''S22'', ''b.bam''), (''S333'', ''c.bam'')]]
       ''chr1:1-1'' [(''S1'', ''a.bam''), (''S22'', ''b.bam''), (''S333'', ''c.bam'')] None 100000 1 =
     Inr \<lparr>index = [''chr1_1''], columns = [(''S1'', [2]), (''S22'', [3]), (''S333'', [4])]\<rparr>"
    by (simp add: samtools_depth_def pool_imap_def samtools_depth_wrapper_def concat_axis1_def
        upt_rec)
  show ?thesis
    by (subst samtools_depth_order_independent [OF one sched, THEN conjunct1]) (rule seq)
qed

section \<open>Shading\<close>

text \<open>
  The name \<^verbatim>\<open>ifct\<close> of line 228 is bound nowhere: not by the module, not among the
  built-in names. So the shading never gets as far as a rectangle.
\<close>

lemma load_global_ifct: "load_global ''ifct'' = Inl (NameError ''ifct'')"
  by (simp add: load_global_def module_globals_def builtin_functions_def
      capital_or_underscore_def)

lemma shade_patches_raises:
  "\<exists>e. shade_patches int_of astype_wide callee start_pos ylim_top sr = Inl e"
  by (simp add: shade_patches_def load_global_ifct split: sum.splits)

lemma shade_patches_list:
  "list_all in_int64 xs \<Longrightarrow> in_int64 start_pos \<Longrightarrow>
   shade_patches int_of astype_wide callee start_pos ylim_top (ShadeList xs) =
     Inl (NameError ''ifct'')"
  by (simp add: shade_patches_def load_global_ifct to_int_array_def subtract_start_def)

text \<open>
  Drawing the traces of a panel: with unique column labels every trace is drawn once; a
  filled trace of a repeated label raises, an outlined one does not.
\<close>

lemma draw_one_distinct:
  assumes "distinct (map fst (columns df))" and "i \<in> fst ` set (columns df)"
  shows "draw_one outline df i = Inr [(i, if outline then Outline else Fill)]"
  by (simp add: draw_one_def filter_label_distinct [OF assms])

lemma draw_traces_distinct:
  assumes "distinct (map fst (columns df))"
  shows "draw_traces outline sorder df =
     Inr (map (\<lambda>i. (i, if outline then Outline else Fill))
            (filter (\<lambda>i. i \<in> fst ` set (columns df)) sorder))"
proof -
  have "map (draw_one outline df) (filter (\<lambda>i. i \<in> fst ` set (columns df)) sorder) =
        map (\<lambda>i. Inr [(i, if outline then Outline else Fill)])
          (filter (\<lambda>i. i \<in> fst ` set (columns df)) sorder)"
    by (rule map_cong [OF refl]) (simp add: draw_one_distinct [OF assms])
  then show ?thesis
    unfolding draw_traces_def by (simp only: collect_all_Inr sum.case concat_map_singleton)
qed

lemma fill_repeated_label_raises:
  "plot int_of astype_wide callee
     [\<lparr>index = [''chr1_1''], columns = [(StrL ''S1'', [1 :: rat]), (StrL ''S1'', [2])]\<rparr>]
     (OrderStr ''none'') False None start_pos ylim_top =
   Inl (ValueError ''y1 is not 1-dimensional'')"
  by (simp add: plot_def trace_order_def trace_sums_def draw_traces_def draw_one_def)

lemma collect_exists:
  "(\<forall>x \<in> set xs. \<exists>y. f x = Inr y) \<Longrightarrow> \<exists>ys. collect (map f xs) = Inr ys"
proof (induction xs)
  case Nil
  then show ?case by simp
next
  case (Cons x xs)
  then obtain y ys where "f x = Inr y" "collect (map f xs) = Inr ys" by auto
  then show ?case by simp
qed

lemma draw_traces_outline: "\<exists>tr. draw_traces True sorder df = Inr tr"
proof -
  have "\<forall>i \<in> set (filter (\<lambda>i. i \<in> fst ` set (columns df)) sorder).
      \<exists>y. draw_one True df i = Inr y"
    by (simp add: draw_one_def)
  from collect_exists [OF this] obtain drawn where
    "collect (map (draw_one True df) (filter (\<lambda>i. i \<in> fst ` set (columns df)) sorder)) =
       Inr drawn"
    by blast
  then show ?thesis by (simp add: draw_traces_def)
qed

lemma draw_all:
  assumes "outline \<or> (\<forall>df \<in> set pileup_dfs. distinct (map fst (columns df)))"
  shows "\<exists>drawn. collect (map (draw_traces outline sorder) pileup_dfs) = Inr drawn"
proof (rule collect_exists, rule ballI)
  fix df assume df: "df \<in> set pileup_dfs"
  show "\<exists>y. draw_traces outline sorder df = Inr y"
  proof (cases outline)
    case True
    then show ?thesis using draw_traces_outline [of sorder df] by simp
  next
    case False
    with assms df have "distinct (map fst (columns df))" by blast
    then show ?thesis by (simp add: draw_traces_distinct)
  qed
qed

lemma draw_traces_labels:
  assumes "draw_traces outline sorder df = Inr tr" and "t \<in> set tr"
  shows "fst t \<in> set sorder \<and> fst t \<in> fst ` set (columns df)"
proof -
  let ?is = "filter (\<lambda>i. i \<in> fst ` set (columns df)) sorder"
  from assms(1) obtain drawn where c: "collect (map (draw_one outline df) ?is) = Inr drawn"
    and tr: "tr = concat drawn"
    by (auto simp: draw_traces_def split: sum.splits)
  from c have m: "map (draw_one outline df) ?is = map Inr drawn"
    by (rule collect_Inr_names)
  from assms(2) tr obtain ts where ts: "ts \<in> set drawn" "t \<in> set ts" by auto
  then have "Inr ts \<in> set (map (draw_one outline df) ?is)"
    using m by simp
  then have "Inr ts \<in> draw_one outline df ` set ?is"
    by (simp only: set_map)
  then obtain i where i: "i \<in> set ?is" "Inr ts = draw_one outline df i"
    by (rule imageE)
  from i(2) ts(2) have "fst t = i"
    by (auto simp: draw_one_def Let_def split: if_splits)
  with i(1) show ?thesis by auto
qed

text \<open>What a call that returns has done, and when a call without shading returns.\<close>

lemma plot_Inr_D:
  assumes "plot int_of astype_wide callee (df0 # rest) order outline shade_range start_pos
      ylim_top = Inr axv"
  shows "\<exists>sorder drawn.
     trace_order order (trace_sums df0) = Inr sorder \<and>
     collect (map (draw_traces outline sorder) (df0 # rest)) = Inr drawn \<and>
     shade_range = None \<and>
     axv = map (\<lambda>tr. \<lparr>prop_cycle = (if length (columns df0) \<le> 3 then Custom3 else DefaultCycle),
                       traces = tr, patches = []\<rparr>) drawn"
proof -
  from assms obtain sorder where so: "trace_order order (trace_sums df0) = Inr sorder"
    by (auto simp: plot_def Let_def split: sum.splits)
  with assms obtain drawn where
    dr: "collect (map (draw_traces outline sorder) (df0 # rest)) = Inr drawn"
    by (auto simp: plot_def Let_def split: sum.splits)
  have none: "shade_range = None"
  proof (cases shade_range)
    case None
    then show ?thesis .
  next
    case (Some sr)
    obtain e where "shade_patches int_of astype_wide callee start_pos ylim_top sr = Inl e"
      using shade_patches_raises by blast
    with assms Some so dr show ?thesis by (simp add: plot_def Let_def)
  qed
  from assms so dr none show ?thesis
    by (auto simp: plot_def Let_def)
qed

lemma plot_returns:
  assumes "trace_order order (trace_sums df0) = Inr sorder"
    and "collect (map (draw_traces outline sorder) (df0 # rest)) = Inr drawn"
  shows "plot int_of astype_wide callee (df0 # rest) order outline None start_pos ylim_top =
     Inr (map (\<lambda>tr. \<lparr>prop_cycle = (if length (columns df0) \<le> 3 then Custom3 else DefaultCycle),
                      traces = tr, patches = []\<rparr>) drawn)"
  using assms by (simp add: plot_def Let_def)

text \<open>A breakpoint beyond 64 bits is refused by the conversion of line 225.\<close>

lemma shade_list_overflow:
  "plot int_of astype_wide callee
     [\<lparr>index = [''chr1_1''], columns = [(IntL 0, [1 :: rat])]\<rparr>]
     (OrderStr ''none'') False (Some (ShadeList [100, 2 ^ 64])) 50 ylim_top =
   Inl (OverflowError ''Python int too large to convert to C long'')"
  by (simp add: plot_def trace_order_def trace_sums_def draw_traces_distinct shade_patches_def
      to_int_array_def in_int64_def)

text \<open>
  C5 fails on the code. For every \<^verbatim>\<open>shade_range\<close> that is not \<^verbatim>\<open>None\<close>,
  \<^verbatim>\<open>plot\<close> raises; for every list of positions that fit 64 bits (and a start
  position of the gene that does), once the panels have been drawn, the exception is the
  \<^verbatim>\<open>NameError\<close> of the unbound name \<^verbatim>\<open>ifct\<close>.
\<close>

theorem plot_shade_range_raises:
  "(\<exists>e. plot int_of astype_wide callee pileup_dfs order outline (Some sr) start_pos ylim_top =
      Inl e) \<and>
   (\<forall>df0 rest sorder xs.
      pileup_dfs = df0 # rest \<longrightarrow>
      trace_order order (trace_sums df0) = Inr sorder \<longrightarrow>
      outline \<or> (\<forall>df \<in> set pileup_dfs. distinct (map fst (columns df))) \<longrightarrow>
      list_all in_int64 xs \<longrightarrow> in_int64 start_pos \<longrightarrow>
      plot int_of astype_wide callee pileup_dfs order outline (Some (ShadeList xs)) start_pos
        ylim_top = Inl (NameError ''ifct''))"
proof
  obtain e where "shade_patches int_of astype_wide callee start_pos ylim_top sr = Inl e"
    using shade_patches_raises by blast
  then show "\<exists>e. plot int_of astype_wide callee pileup_dfs order outline (Some sr) start_pos
      ylim_top = Inl e"
    by (simp add: plot_def Let_def split: list.splits sum.splits)
next
  show "\<forall>df0 rest sorder xs.
      pileup_dfs = df0 # rest \<longrightarrow>
      trace_order order (trace_sums df0) = Inr sorder \<longrightarrow>
      outline \<or> (\<forall>df \<in> set pileup_dfs. distinct (map fst (columns df))) \<longrightarrow>
      list_all in_int64 xs \<longrightarrow> in_int64 start_pos \<longrightarrow>
      plot int_of astype_wide callee pileup_dfs order outline (Some (ShadeList xs)) start_pos
        ylim_top = Inl (NameError ''ifct'')"
  proof (intro allI impI)
    fix df0 rest sorder xs
    assume p: "pileup_dfs = df0 # rest"
      and so: "trace_order order (trace_sums df0) = Inr sorder"
      and d: "outline \<or> (\<forall>df \<in> set pileup_dfs. distinct (map fst (columns df)))"
      and x: "list_all in_int64 xs" "in_int64 start_pos"
    from draw_all [OF d] obtain drawn where
      "collect (map (draw_traces outline sorder) pileup_dfs) = Inr drawn"
      by blast
    with p so x show "plot int_of astype_wide callee pileup_dfs order outline
        (Some (ShadeList xs)) start_pos ylim_top = Inl (NameError ''ifct'')"
      by (simp add: plot_def shade_patches_list Let_def)
  qed
qed

text \<open>The breakpoints 100 and 200, as a list and as a region string.\<close>

theorem plot_shade_range_raises_witness:
  "plot (\<lambda>s. if s = ''100'' then Inr 100 else if s = ''200'' then Inr 200
             else Inl (ValueError ''invalid literal for int()''))
      (\<lambda>xs. Inr (map wrap_int64 xs)) (\<lambda>xs. Inr (map rat_of_int xs))
      [\<lparr>index = [''chr1_1'', ''chr1_2''],
        columns = [(IntL 0, [1, 4 :: rat]), (IntL 1, [5, 5])]\<rparr>]
      (OrderStr ''none'') False (Some (ShadeList [100, 200])) 50 1 =
     Inl (NameError ''ifct'') \<and>
   plot (\<lambda>s. if s = ''100'' then Inr 100 else if s = ''200'' then Inr 200
             else Inl (ValueError ''invalid literal for int()''))
      (\<lambda>xs. Inr (map wrap_int64 xs)) (\<lambda>xs. Inr (map rat_of_int xs))
      [\<lparr>index = [''chr1_1'', ''chr1_2''],
        columns = [(IntL 0, [1, 4 :: rat]), (IntL 1, [5, 5])]\<rparr>]
      (OrderStr ''none'') False (Some (ShadeStr ''chr1:100-200'')) 50 1 =
     Inl (NameError ''ifct'')"
proof -
  let ?int_of = "\<lambda>s. if s = ''100'' then Inr (100 :: int) else if s = ''200'' then Inr 200
             else Inl (ValueError ''invalid literal for int()'')"
  let ?wide = "\<lambda>xs. Inr (map wrap_int64 xs) :: error + int list"
  let ?callee = "\<lambda>xs. Inr (map rat_of_int xs) :: error + rat list"
  let ?df = "\<lparr>index = [''chr1_1'', ''chr1_2''],
        columns = [(IntL 0, [1, 4 :: rat]), (IntL 1, [5, 5])]\<rparr>"
  have t: "trace_order (OrderStr ''none'') (trace_sums ?df) = Inr [IntL 0, IntL 1]"
    by (simp add: trace_order_def trace_sums_def)
  have d: "False \<or> (\<forall>df \<in> set [?df]. distinct (map fst (columns df)))" by simp
  have x: "list_all in_int64 [100, 200]" "in_int64 50"
    by (simp_all add: in_int64_def)
  from plot_shade_range_raises [of ?int_of ?wide ?callee "[?df]" "OrderStr ''none''" False
      "ShadeList [100, 200]" 50 1, THEN conjunct2, rule_format, OF refl t d x]
  have a: "plot ?int_of ?wide ?callee [?df] (OrderStr ''none'') False
      (Some (ShadeList [100, 200])) 50 1 = Inl (NameError ''ifct'')" .
  from plot_shade_range_raises [of ?int_of ?wide ?callee "[?df]" "OrderStr ''none''" False
      "ShadeStr ''chr1:100-200''" 50 1, THEN conjunct1]
  obtain e where b: "plot ?int_of ?wide ?callee [?df] (OrderStr ''none'') False
      (Some (ShadeStr ''chr1:100-200'')) 50 1 = Inl e" by blast
  have "to_int_array ?int_of ?wide (ShadeStr ''chr1:100-200'') = Inr [100, 200]"
    by (simp add: to_int_array_def)
  then have "shade_patches ?int_of ?wide ?callee 50 (1 :: rat) (ShadeStr ''chr1:100-200'') =
      Inl (NameError ''ifct'')"
    by (simp add: shade_patches_def load_global_ifct subtract_start_def in_int64_def)
  moreover have "collect (map (draw_traces False [IntL 0, IntL 1]) [?df]) =
      Inr [[(IntL 0, Fill), (IntL 1, Fill)]]"
    by (simp add: draw_traces_distinct)
  ultimately have "e = NameError ''ifct''"
    using b t by (simp add: plot_def)
  with a b show ?thesis by simp
qed

section \<open>Trace order\<close>

text \<open>
  For \<^verbatim>\<open>order='sorted'\<close> the loop iterates over positions. Where the column labels
  of the first table are the positions themselves (the dosages 0, 1, 2 of a grouped table
  with all three genotypes), every position is a label and the traces are drawn by
  descending sum.
\<close>

lemma set_argsort: "set (argsort xs) = {0..<length xs}"
  by (simp add: argsort_def)

lemma trace_order_sorted:
  "trace_order (OrderStr ''sorted'') s =
     Inr (map (\<lambda>i. IntL (int i)) (rev (argsort (map snd s))))"
  by (simp add: trace_order_def)

lemma argsort_ascending: "sorted (map (\<lambda>i. xs ! i) (argsort xs))"
  by (simp add: argsort_def)

lemma draw_traces_positions_are_labels:
  assumes "map fst (columns df0) = map (\<lambda>i. IntL (int i)) [0..<length (columns df0)]"
  shows "draw_traces outline
      (map (\<lambda>i. IntL (int i)) (rev (argsort (map snd (trace_sums df0))))) df0 =
     Inr (map (\<lambda>i. (IntL (int i), if outline then Outline else Fill))
            (rev (argsort (map snd (trace_sums df0)))))"
proof -
  have "fst ` set (columns df0) = set (map fst (columns df0))" by simp
  also have "\<dots> = (\<lambda>i. IntL (int i)) ` {0..<length (columns df0)}"
    by (subst assms) simp
  finally have labels: "fst ` set (columns df0) = (\<lambda>i. IntL (int i)) ` {0..<length (columns df0)}" .
  have inj: "inj_on (\<lambda>i. IntL (int i)) (set [0..<length (columns df0)])"
    by (rule inj_onI) simp
  have "distinct (map (\<lambda>i. IntL (int i)) [0..<length (columns df0)])"
    using inj by (simp add: distinct_map)
  then have d: "distinct (map fst (columns df0))"
    by (simp only: assms)
  have "filter (\<lambda>l. l \<in> fst ` set (columns df0))
      (map (\<lambda>i. IntL (int i)) (rev (argsort (map snd (trace_sums df0))))) =
    map (\<lambda>i. IntL (int i)) (rev (argsort (map snd (trace_sums df0))))"
    by (rule filter_True) (auto simp: labels set_argsort trace_sums_def)
  then show ?thesis
    by (simp add: draw_traces_distinct [OF d] comp_def)
qed

text \<open>
  C8 fails on the code. With \<^verbatim>\<open>order='sorted'\<close>, in every call that returns, every
  trace that is drawn is labelled by a position \<open>i\<close> of the first table's columns that
  happens to be a column label of the panel's table; a column whose label is not such a
  position is never drawn, whatever its sum. With sample names as labels nothing is drawn.
  The call returns whenever the traces are outlined or no table repeats a column label.
\<close>

theorem plot_sorted_draws_positions:
  assumes "pileup_dfs = df0 # rest"
  shows "(\<forall>axv.
       plot int_of astype_wide callee pileup_dfs (OrderStr ''sorted'') outline None start_pos
         ylim_top = Inr axv \<longrightarrow>
       length axv = length pileup_dfs \<and>
       (\<forall>k < length axv. \<forall>t \<in> set (traces (axv ! k)).
          \<exists>i < length (columns df0).
            fst t = IntL (int i) \<and> IntL (int i) \<in> fst ` set (columns (pileup_dfs ! k)))) \<and>
     (outline \<or> (\<forall>df \<in> set pileup_dfs. distinct (map fst (columns df))) \<longrightarrow>
      (\<exists>axv. plot int_of astype_wide callee pileup_dfs (OrderStr ''sorted'') outline None
         start_pos ylim_top = Inr axv))"
proof -
  define sorder where
    "sorder = map (\<lambda>i. IntL (int i)) (rev (argsort (map snd (trace_sums df0))))"
  have so: "trace_order (OrderStr ''sorted'') (trace_sums df0) = Inr sorder"
    by (simp add: trace_order_sorted sorder_def)
  have pos: "\<exists>i < length (columns df0). l = IntL (int i)" if "l \<in> set sorder" for l
  proof -
    from that obtain i where "i \<in> set (argsort (map snd (trace_sums df0)))" "l = IntL (int i)"
      by (auto simp: sorder_def)
    then show ?thesis
      by (auto simp: set_argsort trace_sums_def)
  qed
  have first: "length axv = length pileup_dfs \<and>
       (\<forall>k < length axv. \<forall>t \<in> set (traces (axv ! k)).
          \<exists>i < length (columns df0).
            fst t = IntL (int i) \<and> IntL (int i) \<in> fst ` set (columns (pileup_dfs ! k)))"
    if run: "plot int_of astype_wide callee pileup_dfs (OrderStr ''sorted'') outline None
        start_pos ylim_top = Inr axv" for axv
  proof -
    from plot_Inr_D [OF run [unfolded assms]] so obtain drawn where
      dr: "collect (map (draw_traces outline sorder) pileup_dfs) = Inr drawn"
      and axv: "axv = map (\<lambda>tr. \<lparr>prop_cycle =
          (if length (columns df0) \<le> 3 then Custom3 else DefaultCycle),
          traces = tr, patches = []\<rparr>) drawn"
      unfolding assms by auto
    from dr have m: "map (draw_traces outline sorder) pileup_dfs = map Inr drawn"
      by (rule collect_Inr_names)
    then have len: "length drawn = length pileup_dfs"
      by (metis length_map)
    have "\<exists>i < length (columns df0).
            fst t = IntL (int i) \<and> IntL (int i) \<in> fst ` set (columns (pileup_dfs ! k))"
      if k: "k < length axv" and t: "t \<in> set (traces (axv ! k))" for k t
    proof -
      from k have kd: "k < length drawn" by (simp add: axv)
      with t have t': "t \<in> set (drawn ! k)" by (simp add: axv)
      from m kd len have "draw_traces outline sorder (pileup_dfs ! k) = Inr (drawn ! k)"
        by (metis nth_map)
      from draw_traces_labels [OF this t'] pos [of "fst t"] show ?thesis by metis
    qed
    with len show ?thesis by (simp add: axv)
  qed
  have second: "\<exists>axv. plot int_of astype_wide callee pileup_dfs (OrderStr ''sorted'') outline
      None start_pos ylim_top = Inr axv"
    if d: "outline \<or> (\<forall>df \<in> set pileup_dfs. distinct (map fst (columns df)))"
  proof -
    from draw_all [OF d] obtain drawn where
      "collect (map (draw_traces outline sorder) pileup_dfs) = Inr drawn"
      by blast
    with so show ?thesis
      unfolding assms by (simp add: plot_returns)
  qed
  from first second show ?thesis by blast
qed

text \<open>
  A grouped table without heterozygotes, columns 0 and 2 with sums 5 and 10: only dosage 0 is
  drawn; the trace of dosage 2, which has the largest sum, is not.
\<close>

theorem plot_sorted_draws_positions_witness:
  "\<exists>axv.
     plot (\<lambda>s. Inl (ValueError ''invalid literal for int()'')) (\<lambda>xs. Inr (map wrap_int64 xs))
       (\<lambda>xs. Inr (map rat_of_int xs))
       [\<lparr>index = [''chr1_1'', ''chr1_2''],
         columns = [(IntL 0, [1, 4 :: rat]), (IntL 2, [5, 5])]\<rparr>]
       (OrderStr ''sorted'') False None 50 (1 :: rat) = Inr axv \<and>
     length axv = 1 \<and>
     traces (axv ! 0) = [(IntL 0, Fill)] \<and>
     (IntL 2, Fill) \<notin> set (traces (axv ! 0))"
proof -
  let ?df = "\<lparr>index = [''chr1_1'', ''chr1_2''],
         columns = [(IntL 0, [1, 4 :: rat]), (IntL 2, [5, 5])]\<rparr>"
  let ?int_of = "\<lambda>s :: string. Inl (ValueError ''invalid literal for int()'') :: error + int"
  let ?wide = "\<lambda>xs. Inr (map wrap_int64 xs) :: error + int list"
  let ?callee = "\<lambda>xs. Inr (map rat_of_int xs) :: error + rat list"
  note inst = plot_sorted_draws_positions [of "[?df]" ?df "[]" ?int_of ?wide ?callee False 50
      "1 :: rat", OF refl]
  have d: "False \<or> (\<forall>df \<in> set [?df]. distinct (map fst (columns df)))" by simp
  from inst [THEN conjunct2, rule_format, OF d]
  obtain axv where run: "plot ?int_of ?wide ?callee [?df] (OrderStr ''sorted'') False None 50
      (1 :: rat) = Inr axv"
    by blast
  from inst [THEN conjunct1, rule_format, OF run]
  have len: "length axv = length [?df]"
    and tr: "\<forall>k < length axv. \<forall>t \<in> set (traces (axv ! k)).
        \<exists>i < length (columns ?df).
          fst t = IntL (int i) \<and> IntL (int i) \<in> fst ` set (columns ([?df] ! k))"
    by blast+
  have "(IntL 2, Fill) \<notin> set (traces (axv ! 0))"
  proof
    assume "(IntL 2, Fill) \<in> set (traces (axv ! 0))"
    with tr len obtain i where "i < length (columns ?df)" "fst (IntL 2, Fill) = IntL (int i)"
      by force
    then show False by simp
  qed
  moreover have "traces (axv ! 0) = [(IntL 0, Fill)]"
    using run
    by (auto simp: plot_def trace_order_sorted trace_sums_def argsort_def draw_traces_distinct)
  ultimately show ?thesis using run len by simp
qed

section \<open>Colour cycle\<close>

text \<open>
  C9, as amended. For every non-empty list of tables, in every call of \<^verbatim>\<open>plot\<close>
  that returns there is one pileup panel per table and every panel has the three-colour
  cycle if and only if the first table has at most 3 columns, and the default cycle if and
  only if the first table has more than 3; and the call returns whenever no shading is
  asked for, the trace order is determined, and the traces are outlined or no table repeats
  a column label.
\<close>

theorem plot_cycle_from_first_table:
  assumes "pileup_dfs = df0 # rest"
  shows "(\<forall>axv.
       plot int_of astype_wide callee pileup_dfs order outline shade_range start_pos ylim_top =
         Inr axv \<longrightarrow>
       length axv = length pileup_dfs \<and>
       (\<forall>k < length axv.
          (prop_cycle (axv ! k) = Custom3 \<longleftrightarrow> length (columns df0) \<le> 3) \<and>
          (prop_cycle (axv ! k) = DefaultCycle \<longleftrightarrow> 3 < length (columns df0)))) \<and>
     (\<forall>sorder.
        trace_order order (trace_sums df0) = Inr sorder \<longrightarrow>
        outline \<or> (\<forall>df \<in> set pileup_dfs. distinct (map fst (columns df))) \<longrightarrow>
        (\<exists>axv. plot int_of astype_wide callee pileup_dfs order outline None start_pos ylim_top =
           Inr axv))"
proof -
  have first: "length axv = length pileup_dfs \<and>
       (\<forall>k < length axv.
          (prop_cycle (axv ! k) = Custom3 \<longleftrightarrow> length (columns df0) \<le> 3) \<and>
          (prop_cycle (axv ! k) = DefaultCycle \<longleftrightarrow> 3 < length (columns df0)))"
    if run: "plot int_of astype_wide callee pileup_dfs order outline shade_range start_pos
        ylim_top = Inr axv"
    for axv
  proof -
    from plot_Inr_D [OF run [unfolded assms]] obtain sorder drawn where
      dr: "collect (map (draw_traces outline sorder) pileup_dfs) = Inr drawn"
      and axv: "axv = map (\<lambda>tr. \<lparr>prop_cycle =
          (if length (columns df0) \<le> 3 then Custom3 else DefaultCycle),
          traces = tr, patches = []\<rparr>) drawn"
      unfolding assms by auto
    from dr have "map (draw_traces outline sorder) pileup_dfs = map Inr drawn"
      by (rule collect_Inr_names)
    then have "length drawn = length pileup_dfs"
      by (metis length_map)
    then show ?thesis by (auto simp: axv)
  qed
  have second: "\<exists>axv. plot int_of astype_wide callee pileup_dfs order outline None start_pos
      ylim_top = Inr axv"
    if so: "trace_order order (trace_sums df0) = Inr sorder"
      and d: "outline \<or> (\<forall>df \<in> set pileup_dfs. distinct (map fst (columns df)))" for sorder
  proof -
    from draw_all [OF d] obtain drawn where
      "collect (map (draw_traces outline sorder) pileup_dfs) = Inr drawn"
      by blast
    with so show ?thesis
      unfolding assms by (simp add: plot_returns)
  qed
  from first second show ?thesis by blast
qed

text \<open>
  C9 as stated fails: behind a first table of 2 columns, a panel whose own table has 5
  columns gets the three-colour cycle.
\<close>

theorem plot_cycle_ignores_later_tables:
  "plot (\<lambda>s. Inl (ValueError ''invalid literal for int()'')) (\<lambda>xs. Inr (map wrap_int64 xs))
     (\<lambda>xs. Inr (map rat_of_int xs))
     [\<lparr>index = [''chr1_1''], columns = [(StrL ''x'', [1 :: rat]), (StrL ''y'', [2])]\<rparr>,
      \<lparr>index = [''chr1_1''],
       columns = [(StrL ''x'', [1]), (StrL ''y'', [2]), (StrL ''c'', [3]), (StrL ''d'', [4]),
                  (StrL ''e'', [5])]\<rparr>]
     (OrderStr ''none'') False None 50 (1 :: rat) =
   Inr [\<lparr>prop_cycle = Custom3, traces = [(StrL ''x'', Fill), (StrL ''y'', Fill)], patches = []\<rparr>,
        \<lparr>prop_cycle = Custom3, traces = [(StrL ''x'', Fill), (StrL ''y'', Fill)], patches = []\<rparr>] \<and>
   length (columns \<lparr>index = [''chr1_1''],
       columns = [(StrL ''x'', [1 :: rat]), (StrL ''y'', [2]), (StrL ''c'', [3]), (StrL ''d'', [4]),
                  (StrL ''e'', [5])]\<rparr>) = 5"
  by (simp add: plot_def trace_order_def trace_sums_def draw_traces_distinct)

text \<open>
  The amended statement at a first table of 4 columns and a second of 2: both panels get the
  default cycle.
\<close>

theorem plot_cycle_from_first_table_witness:
  "\<exists>axv.
     plot (\<lambda>s. Inl (ValueError ''invalid literal for int()'')) (\<lambda>xs. Inr (map wrap_int64 xs))
       (\<lambda>xs. Inr (map rat_of_int xs))
       [\<lparr>index = [''chr1_1''],
         columns = [(IntL 0, [1 :: rat]), (IntL 1, [2]), (IntL 2, [3]), (IntL 3, [4])]\<rparr>,
        \<lparr>index = [''chr1_1''], columns = [(IntL 0, [1]), (IntL 1, [2])]\<rparr>]
       (OrderStr ''none'') False None 50 (1 :: rat) = Inr axv \<and>
     length axv = 2 \<and>
     prop_cycle (axv ! 0) = DefaultCycle \<and> prop_cycle (axv ! 1) = DefaultCycle"
proof -
  let ?df0 = "\<lparr>index = [''chr1_1''],
         columns = [(IntL 0, [1 :: rat]), (IntL 1, [2]), (IntL 2, [3]), (IntL 3, [4])]\<rparr>"
  let ?df1 = "\<lparr>index = [''chr1_1''], columns = [(IntL 0, [1 :: rat]), (IntL 1, [2])]\<rparr>"
  let ?int_of = "\<lambda>s :: string. Inl (ValueError ''invalid literal for int()'') :: error + int"
  let ?wide = "\<lambda>xs. Inr (map wrap_int64 xs) :: error + int list"
  let ?callee = "\<lambda>xs. Inr (map rat_of_int xs) :: error + rat list"
  note inst = plot_cycle_from_first_table [of "[?df0, ?df1]" ?df0 "[?df1]" ?int_of ?wide ?callee
      "OrderStr ''none''" False None 50 "1 :: rat", OF refl]
  have t: "trace_order (OrderStr ''none'') (trace_sums ?df0) =
      Inr [IntL 0, IntL 1, IntL 2, IntL 3]"
    by (simp add: trace_order_def trace_sums_def)
  have d: "False \<or> (\<forall>df \<in> set [?df0, ?df1]. distinct (map fst (columns df)))" by simp
  from inst [THEN conjunct2, rule_format, OF t d]
  obtain axv where run: "plot ?int_of ?wide ?callee [?df0, ?df1] (OrderStr ''none'') False None
      50 (1 :: rat) = Inr axv"
    by blast
  from inst [THEN conjunct1, rule_format, OF run]
  have len: "length axv = 2"
    and cyc: "\<forall>k < length axv.
          (prop_cycle (axv ! k) = Custom3 \<longleftrightarrow> length (columns ?df0) \<le> 3) \<and>
          (prop_cycle (axv ! k) = DefaultCycle \<longleftrightarrow> 3 < length (columns ?df0))"
    by simp_all
  from cyc len have "prop_cycle (axv ! 0) = DefaultCycle" "prop_cycle (axv ! 1) = DefaultCycle"
    by simp_all
  with run len show ?thesis by blast
qed

end
